theory Spec2Isabelle
  imports Main
begin

section \<open>Strings\<close>

text \<open>
  A JavaScript string is a sequence of UTF-16 code units. A code unit is modelled by its
  number, a string by the list of its code units. \<open>str\<close> turns an ASCII literal into
  such a list.
\<close>

type_synonym jsstring = "nat list"

definition str :: "string \<Rightarrow> jsstring" where
  "str = map of_char"

text \<open>
  ECMAScript defines both \<^verbatim>\<open>String.prototype.trim\<close> and the regular expression class
  \<^verbatim>\<open>\s\<close> by the same set: WhiteSpace (TAB, VT, FF, SP, NBSP, ZWNBSP and the
  space separators) together with LineTerminator (LF, CR, LS, PS).
\<close>

definition is_space :: "nat \<Rightarrow> bool" where
  "is_space c =
     (c = 9 \<or> c = 10 \<or> c = 11 \<or> c = 12 \<or> c = 13 \<or> c = 32 \<or> c = 160 \<or> c = 5760 \<or>
      (8192 \<le> c \<and> c \<le> 8202) \<or> c = 8232 \<or> c = 8233 \<or> c = 8239 \<or> c = 8287 \<or>
      c = 12288 \<or> c = 65279)"

definition is_digit :: "nat \<Rightarrow> bool" where
  "is_digit c = (48 \<le> c \<and> c \<le> 57)"

definition is_word :: "nat \<Rightarrow> bool" where
  "is_word c = ((65 \<le> c \<and> c \<le> 90) \<or> (97 \<le> c \<and> c \<le> 122) \<or> is_digit c \<or> c = 95)"

text \<open>The class \<^verbatim>\<open>[\w.-]\<close>.\<close>

definition is_logger_char :: "nat \<Rightarrow> bool" where
  "is_logger_char c = (is_word c \<or> c = 46 \<or> c = 45)"

text \<open>The dot (no \<^verbatim>\<open>s\<close> flag): any code unit but a line terminator.\<close>

definition is_dot :: "nat \<Rightarrow> bool" where
  "is_dot c = (\<not> (c = 10 \<or> c = 13 \<or> c = 8232 \<or> c = 8233))"

definition trim :: "jsstring \<Rightarrow> jsstring" where
  "trim s = rev (dropWhile is_space (rev (dropWhile is_space s)))"

text \<open>\<^verbatim>\<open>s.replace(a, b)\<close> with one-unit strings: the first occurrence only.\<close>

fun replace_first :: "nat \<Rightarrow> nat \<Rightarrow> jsstring \<Rightarrow> jsstring" where
  "replace_first a b [] = []"
| "replace_first a b (c # cs) = (if c = a then b # cs else c # replace_first a b cs)"

text \<open>\<^verbatim>\<open>s.slice(i, j)\<close> and \<^verbatim>\<open>s.slice(i)\<close> for indices that are not negative.\<close>

definition str_slice :: "jsstring \<Rightarrow> nat \<Rightarrow> nat \<Rightarrow> jsstring" where
  "str_slice s i j = take (j - i) (drop i s)"

definition str_slice_from :: "jsstring \<Rightarrow> nat \<Rightarrow> jsstring" where
  "str_slice_from s i = drop i s"

text \<open>\<^verbatim>\<open>s.split("\n")\<close>: the segments between line feeds, at least one.\<close>

fun split_lines :: "jsstring \<Rightarrow> jsstring list" where
  "split_lines [] = [[]]"
| "split_lines (c # cs) =
     (if c = 10 then [] # split_lines cs
      else (case split_lines cs of
              [] \<Rightarrow> [[c]]
            | l # ls \<Rightarrow> (c # l) # ls))"

section \<open>Regular expressions\<close>

text \<open>
  The fragment of the JavaScript regular expressions that the patterns of
  \<^verbatim>\<open>log-parser.ts\<close> use: literals, classes, concatenation, alternation, the greedy
  star of a one-unit class (every quantifier of the patterns sits on one), numbered
  capturing groups and the two anchors (there is no \<^verbatim>\<open>m\<close> flag, so they mean the
  start and the end of the input).
\<close>

datatype rx =
    Eps
  | Lit nat
  | Cls "nat \<Rightarrow> bool"
  | Seq rx rx
  | Alt rx rx
  | Star "nat \<Rightarrow> bool"
  | Grp nat rx
  | Bos
  | Eos

type_synonym caps = "jsstring option list"

text \<open>The ways a greedy star can stop, the longest run first: what is left of the input.\<close>

fun star_rests :: "(nat \<Rightarrow> bool) \<Rightarrow> jsstring \<Rightarrow> jsstring list" where
  "star_rests p [] = [[]]"
| "star_rests p (c # cs) = (if p c then star_rests p cs else []) @ [c # cs]"

text \<open>
  A backtracking matcher as a list of successes, in the order in which backtracking
  finds them. A state is the rest of the input and the captures so far; \<open>inp\<close> is the
  whole input.
\<close>

fun ms :: "jsstring \<Rightarrow> rx \<Rightarrow> jsstring \<times> caps \<Rightarrow> (jsstring \<times> caps) list" where
  "ms inp Eps st = [st]"
| "ms inp (Lit c) (s, cs) =
     (case s of [] \<Rightarrow> [] | x # xs \<Rightarrow> if x = c then [(xs, cs)] else [])"
| "ms inp (Cls p) (s, cs) =
     (case s of [] \<Rightarrow> [] | x # xs \<Rightarrow> if p x then [(xs, cs)] else [])"
| "ms inp (Seq a b) st = concat (map (ms inp b) (ms inp a st))"
| "ms inp (Alt a b) st = ms inp a st @ ms inp b st"
| "ms inp (Star p) (s, cs) = map (\<lambda>r. (r, cs)) (star_rests p s)"
| "ms inp (Grp i a) (s, cs) =
     map (\<lambda>(r, cs'). (r, cs'[i := Some (take (length s - length r) s)])) (ms inp a (s, cs))"
| "ms inp Bos (s, cs) = (if length s = length inp then [(s, cs)] else [])"
| "ms inp Eos (s, cs) = (if s = [] then [(s, cs)] else [])"

fun ngroups :: "rx \<Rightarrow> nat" where
  "ngroups (Seq a b) = ngroups a + ngroups b"
| "ngroups (Alt a b) = ngroups a + ngroups b"
| "ngroups (Grp i a) = Suc (ngroups a)"
| "ngroups r = 0"

text \<open>
  \<^verbatim>\<open>line.match(pattern)\<close> without the \<^verbatim>\<open>g\<close> flag: the first start position
  with a match, and there the first match. The result is the array of the whole match
  and the groups (a group that took no part is undefined: \<open>None\<close>), or null.
\<close>

fun match_from :: "rx \<Rightarrow> jsstring \<Rightarrow> jsstring \<Rightarrow> caps option" where
  "match_from r inp [] =
     (case ms inp r ([], replicate (Suc (ngroups r)) None) of
        [] \<Rightarrow> None
      | (rest, cs) # _ \<Rightarrow> Some (cs[0 := Some []]))"
| "match_from r inp (c # s) =
     (case ms inp r (c # s, replicate (Suc (ngroups r)) None) of
        [] \<Rightarrow> match_from r inp s
      | (rest, cs) # _ \<Rightarrow> Some (cs[0 := Some (take (length (c # s) - length rest) (c # s))]))"

definition match :: "jsstring \<Rightarrow> rx \<Rightarrow> caps option" where
  "match line r = match_from r line line"

text \<open>Building blocks of the patterns.\<close>

fun seqs :: "rx list \<Rightarrow> rx" where
  "seqs [] = Eps"
| "seqs [r] = r"
| "seqs (r # rs) = Seq r (seqs rs)"

definition lits :: "string \<Rightarrow> rx" where
  "lits s = seqs (map Lit (str s))"

definition many1 :: "(nat \<Rightarrow> bool) \<Rightarrow> rx" where
  "many1 p = Seq (Cls p) (Star p)"

definition d2 :: rx where
  "d2 = Seq (Cls is_digit) (Cls is_digit)"

definition d3 :: rx where
  "d3 = Seq (Cls is_digit) d2"

definition d4 :: rx where
  "d4 = Seq d2 d2"

definition LEVELS :: rx where
  "LEVELS = Alt (lits ''ERROR'') (Alt (lits ''WARN'') (Alt (lits ''INFO'') (lits ''DEBUG'')))"

section \<open>The line parser (client/src/lib/log-parser.ts)\<close>

text \<open>
  \<^verbatim>\<open>/^(\d{4}-\d{2}-\d{2}\s\d{2}:\d{2}:\d{2},\d{3})\s+main\s+(ERROR|WARN|INFO|DEBUG)\s+(.+)$/\<close>
\<close>

definition PATTERN_MAIN :: rx where
  "PATTERN_MAIN = seqs
     [Bos,
      Grp 1 (seqs [d4, lits ''-'', d2, lits ''-'', d2, Cls is_space,
                   d2, lits '':'', d2, lits '':'', d2, lits '','', d3]),
      many1 is_space, lits ''main'', many1 is_space,
      Grp 2 LEVELS,
      many1 is_space,
      Grp 3 (many1 is_dot),
      Eos]"

text \<open>
  \<^verbatim>\<open>/^(\d{2}\.\d{2}\.\d{2}\s\d{2}:\d{2}:\d{2}:\d{3})\s*-\s*(ERROR|WARN|INFO|DEBUG)\s*-\s*([\w.-]+)\s*-\s*(.+)$/\<close>
\<close>

definition PATTERN_LOCALE :: rx where
  "PATTERN_LOCALE = seqs
     [Bos,
      Grp 1 (seqs [d2, lits ''.'', d2, lits ''.'', d2, Cls is_space,
                   d2, lits '':'', d2, lits '':'', d2, lits '':'', d3]),
      Star is_space, lits ''-'', Star is_space,
      Grp 2 LEVELS,
      Star is_space, lits ''-'', Star is_space,
      Grp 3 (many1 is_logger_char),
      Star is_space, lits ''-'', Star is_space,
      Grp 4 (many1 is_dot),
      Eos]"

text \<open>
  \<^verbatim>\<open>/^\s+(at\s+.+|Caused\s+by:.+|\.{3}\s+\d+\s+more|\s+.*Exception.*)$/\<close>
\<close>

definition PATTERN_STACK :: rx where
  "PATTERN_STACK = seqs
     [Bos,
      many1 is_space,
      Grp 1 (Alt (seqs [lits ''at'', many1 is_space, many1 is_dot])
            (Alt (seqs [lits ''Caused'', many1 is_space, lits ''by:'', many1 is_dot])
            (Alt (seqs [lits ''...'', many1 is_space, many1 is_digit, many1 is_space, lits ''more''])
                 (seqs [many1 is_space, Star is_dot, lits ''Exception'', Star is_dot])))),
      Eos]"

definition TOMCAT_PATTERNS :: "rx list" where
  "TOMCAT_PATTERNS = [PATTERN_MAIN, PATTERN_LOCALE, PATTERN_STACK]"

datatype LogLevel = ERROR | WARN | INFO | DEBUG

text \<open>
  The \<^verbatim>\<open>Date\<close> objects of the parser. Parsing a date string is left to the
  JavaScript engine (the formats here are not the ISO format, so the result is
  implementation-defined): a Date is represented by the constructor call that made it.
\<close>

datatype jsdate =
    DateOf jsstring   \<comment> \<open>\<^verbatim>\<open>new Date(s)\<close>\<close>
  | DateNow           \<comment> \<open>\<^verbatim>\<open>new Date()\<close>\<close>

text \<open>
  A timestamp as the store holds it: a Date, or the string that
  \<^verbatim>\<open>toISOString\<close> made of a Date.
\<close>

datatype tsval = TDate jsdate | TIso jsdate

record ParsedLogEntry =
  lineNumber :: nat
  timestamp :: tsval
  level :: LogLevel
  logger :: "jsstring option"
  message :: jsstring
  stackTrace :: "jsstring option"

datatype error =
    EmptyLine    \<comment> \<open>\<^verbatim>\<open>Error('Empty line')\<close>\<close>
  | TypeError    \<comment> \<open>a method called on undefined, or a call of what is no function\<close>
  | RangeError   \<comment> \<open>\<^verbatim>\<open>toISOString\<close> of an invalid Date\<close>
  | IOError      \<comment> \<open>raised by the file system, the decoder or a socket\<close>

text \<open>\<^verbatim>\<open>toUpperCase\<close> on the ASCII letters (the level names are ASCII).\<close>

definition toUpperCase :: "jsstring \<Rightarrow> jsstring" where
  "toUpperCase = map (\<lambda>c. if 97 \<le> c \<and> c \<le> 122 then c - 32 else c)"

text \<open>
  The cast \<^verbatim>\<open>as LogLevel\<close> is not checked when the program runs. The model
  reports a string that is no level as a \<open>TypeError\<close>; the level group of the
  patterns admits the four names only, so the case is unreachable
  (\<open>parseLogLine_total\<close>).
\<close>

definition as_LogLevel :: "jsstring \<Rightarrow> LogLevel option" where
  "as_LogLevel s =
     (if s = str ''ERROR'' then Some ERROR
      else if s = str ''WARN'' then Some WARN
      else if s = str ''INFO'' then Some INFO
      else if s = str ''DEBUG'' then Some DEBUG
      else None)"

text \<open>
  The body of the loop for a match whose array has length 4. A group that is undefined
  makes \<^verbatim>\<open>match[1].replace\<close> or \<^verbatim>\<open>match[2].toUpperCase\<close> raise; an
  undefined message group would leave the message undefined, which the type
  \<^verbatim>\<open>ParsedLogEntry\<close> excludes, and is reported in the same way. The groups of the
  registered patterns are always set (\<open>match_MAIN\<close>, \<open>match_LOCALE\<close>).
\<close>

definition entry_of_match4 :: "caps \<Rightarrow> nat \<Rightarrow> error + ParsedLogEntry" where
  "entry_of_match4 m n =
     (case (m ! 1, m ! 2, m ! 3) of
        (Some m1, Some m2, Some m3) \<Rightarrow>
          (case as_LogLevel (toUpperCase m2) of
             None \<Rightarrow> Inl TypeError
           | Some l \<Rightarrow>
               Inr \<lparr>lineNumber = n,
                    timestamp = TDate (DateOf (replace_first 44 46 m1)),
                    level = l,
                    logger = Some (str ''main''),
                    message = m3,
                    stackTrace = None\<rparr>)
      | _ \<Rightarrow> Inl TypeError)"

text \<open>
  The body for length 5:
  \<^verbatim>\<open>`20${match[1].slice(6, 8)}-${match[1].slice(3, 5)}-${match[1].slice(0, 2)} ${match[1].slice(9)}`\<close>
\<close>

definition timestampStr :: "jsstring \<Rightarrow> jsstring" where
  "timestampStr m1 =
     str ''20'' @ str_slice m1 6 8 @ str ''-'' @ str_slice m1 3 5 @ str ''-'' @
     str_slice m1 0 2 @ str '' '' @ str_slice_from m1 9"

definition entry_of_match5 :: "caps \<Rightarrow> nat \<Rightarrow> error + ParsedLogEntry" where
  "entry_of_match5 m n =
     (case (m ! 1, m ! 2, m ! 3, m ! 4) of
        (Some m1, Some m2, Some m3, Some m4) \<Rightarrow>
          (case as_LogLevel (toUpperCase m2) of
             None \<Rightarrow> Inl TypeError
           | Some l \<Rightarrow>
               Inr \<lparr>lineNumber = n,
                    timestamp = TDate (DateOf (timestampStr m1)),
                    level = l,
                    logger = Some m3,
                    message = m4,
                    stackTrace = None\<rparr>)
      | _ \<Rightarrow> Inl TypeError)"

text \<open>
  The loop over the patterns: a match of length 4 or 5 returns; any other match (the
  stack pattern has one group, so length 2) and a failed match go on to the next
  pattern. \<open>None\<close>: the loop ended without a return.
\<close>

fun try_patterns :: "rx list \<Rightarrow> jsstring \<Rightarrow> nat \<Rightarrow> error + ParsedLogEntry option" where
  "try_patterns [] line n = Inr None"
| "try_patterns (p # ps) line n =
     (case match line p of
        None \<Rightarrow> try_patterns ps line n
      | Some m \<Rightarrow>
          if length m = 4 then map_sum id Some (entry_of_match4 m n)
          else if length m = 5 then map_sum id Some (entry_of_match5 m n)
          else try_patterns ps line n)"

definition parseLogLine :: "jsstring \<Rightarrow> nat \<Rightarrow> error + ParsedLogEntry" where
  "parseLogLine line0 n =
     (let line = trim line0 in
      if line = [] then Inl EmptyLine
      else
        (case try_patterns TOMCAT_PATTERNS line n of
           Inl e \<Rightarrow> Inl e
         | Inr (Some entry) \<Rightarrow> Inr entry
         | Inr None \<Rightarrow>
             (case match line (TOMCAT_PATTERNS ! 2) of
                Some m \<Rightarrow>
                  Inr \<lparr>lineNumber = n, timestamp = TDate DateNow, level = DEBUG,
                       logger = None, message = [], stackTrace = Some line\<rparr>
              | None \<Rightarrow>
                  Inr \<lparr>lineNumber = n, timestamp = TDate DateNow, level = INFO,
                       logger = None, message = line, stackTrace = None\<rparr>)))"

section \<open>The store (server/storage: \<^verbatim>\<open>MemStorage\<close>)\<close>

record LogFile =
  id' :: jsstring
  fileName :: jsstring
  fileSize :: nat
  status :: jsstring
  uploadedAt :: jsdate

text \<open>
  \<^verbatim>\<open>InsertLogEntry\<close> is what \<^verbatim>\<open>createLogEntry\<close> is given, \<^verbatim>\<open>LogEntry\<close>
  what the store holds. In both, \<^verbatim>\<open>fileName\<close> holds the id of the owning file.
\<close>

record InsertLogEntry = ParsedLogEntry +
  fileName :: jsstring

record LogEntry = InsertLogEntry +
  id' :: jsstring
  createdAt :: jsdate

record MemStorage =
  logEntries :: "jsstring \<rightharpoonup> LogEntry list"
  logFiles :: "jsstring \<rightharpoonup> LogFile"

text \<open>\<^verbatim>\<open>new MemStorage()\<close>\<close>

definition new_MemStorage :: MemStorage where
  "new_MemStorage = \<lparr>logEntries = Map.empty, logFiles = Map.empty\<rparr>"

text \<open>
  \<^verbatim>\<open>Array.prototype.slice(start, end)\<close> on integers: a negative index counts from
  the end, and both are clamped to the array.
\<close>

definition slice :: "'a list \<Rightarrow> int \<Rightarrow> int \<Rightarrow> 'a list" where
  "slice xs start fin =
     (let len = int (length xs);
          k = (if start < 0 then max (len + start) 0 else min start len);
          final = (if fin < 0 then max (len + fin) 0 else min fin len)
      in take (nat (final - k)) (drop (nat k) xs))"

text \<open>\<^verbatim>\<open>this.logEntries.get(fileName) || []\<close>\<close>

definition entries_of :: "MemStorage \<Rightarrow> jsstring \<Rightarrow> LogEntry list" where
  "entries_of st f = (case logEntries st f of None \<Rightarrow> [] | Some es \<Rightarrow> es)"

text \<open>The TypeScript store: \<^verbatim>\<open>entries.slice(offset, offset + limit)\<close>.\<close>

definition getLogEntries :: "MemStorage \<Rightarrow> jsstring \<Rightarrow> int \<Rightarrow> int \<Rightarrow> LogEntry list" where
  "getLogEntries st f limit offset = slice (entries_of st f) offset (offset + limit)"

text \<open>
  \<^verbatim>\<open>toISOString\<close> raises a RangeError on an invalid Date. Which date strings the
  engine accepts is a parameter, \<open>valid\<close>; the current time is always valid.
\<close>

definition toISOString :: "(jsstring \<Rightarrow> bool) \<Rightarrow> jsdate \<Rightarrow> error + tsval" where
  "toISOString valid d =
     (case d of
        DateNow \<Rightarrow> Inr (TIso DateNow)
      | DateOf s \<Rightarrow> if valid s then Inr (TIso d) else Inl RangeError)"

text \<open>
  The JavaScript store maps every entry of the slice:
  \<^verbatim>\<open>{...entry, level: entry.level.toUpperCase(), timestamp: typeof entry.timestamp === 'string' ? entry.timestamp : entry.timestamp.toISOString()}\<close>.
  The four level names are their own upper case.
\<close>

definition entry_json :: "(jsstring \<Rightarrow> bool) \<Rightarrow> LogEntry \<Rightarrow> error + LogEntry" where
  "entry_json valid entry =
     (case timestamp entry of
        TIso d \<Rightarrow> Inr entry
      | TDate d \<Rightarrow>
          (case toISOString valid d of
             Inl err \<Rightarrow> Inl err
           | Inr t \<Rightarrow> Inr (entry\<lparr>timestamp := t\<rparr>)))"

text \<open>\<^verbatim>\<open>Array.prototype.map\<close> with a callback that may raise: the first raise ends it.\<close>

fun map_raise :: "('a \<Rightarrow> error + 'b) \<Rightarrow> 'a list \<Rightarrow> error + 'b list" where
  "map_raise g [] = Inr []"
| "map_raise g (x # xs) =
     (case g x of
        Inl err \<Rightarrow> Inl err
      | Inr y \<Rightarrow> (case map_raise g xs of Inl err \<Rightarrow> Inl err | Inr ys \<Rightarrow> Inr (y # ys)))"

definition getLogEntries_js ::
  "(jsstring \<Rightarrow> bool) \<Rightarrow> MemStorage \<Rightarrow> jsstring \<Rightarrow> int \<Rightarrow> int \<Rightarrow> error + LogEntry list" where
  "getLogEntries_js valid st f limit offset =
     map_raise (entry_json valid) (slice (entries_of st f) offset (offset + limit))"

text \<open>\<^verbatim>\<open>x || null\<close> on a string that may be absent.\<close>

definition or_null :: "jsstring option \<Rightarrow> jsstring option" where
  "or_null v = (case v of None \<Rightarrow> None | Some s \<Rightarrow> if s = [] then None else Some s)"

text \<open>
  \<^verbatim>\<open>createLogEntry\<close>, the same in both stores. \<open>uuid\<close> is what
  \<^verbatim>\<open>randomUUID()\<close> returns at this call. The argument may carry more fields than
  \<^verbatim>\<open>InsertLogEntry\<close> names (an id among them): the object spread copies them and the
  fields written after it override them.
\<close>

definition createLogEntry ::
  "jsstring \<Rightarrow> 'a InsertLogEntry_scheme \<Rightarrow> MemStorage \<Rightarrow> LogEntry \<times> MemStorage" where
  "createLogEntry uuid insertEntry st =
     (let entry = \<lparr>lineNumber = lineNumber insertEntry,
                   timestamp = timestamp insertEntry,
                   level = level insertEntry,
                   logger = or_null (logger insertEntry),
                   message = message insertEntry,
                   stackTrace = or_null (stackTrace insertEntry),
                   fileName = InsertLogEntry.fileName insertEntry,
                   id' = uuid,
                   createdAt = DateNow\<rparr>;
          entries = entries_of st (InsertLogEntry.fileName entry)
      in (entry, st\<lparr>logEntries := (logEntries st)(InsertLogEntry.fileName entry \<mapsto> entries @ [entry])\<rparr>))"

definition clearLogEntries :: "MemStorage \<Rightarrow> jsstring \<Rightarrow> MemStorage" where
  "clearLogEntries st f = st\<lparr>logEntries := (logEntries st)(f \<mapsto> [])\<rparr>"

text \<open>Only the JavaScript store has \<^verbatim>\<open>deleteLogFile\<close>.\<close>

definition deleteLogFile :: "MemStorage \<Rightarrow> jsstring \<Rightarrow> MemStorage" where
  "deleteLogFile st fileId =
     st\<lparr>logFiles := (logFiles st)(fileId := None), logEntries := (logEntries st)(fileId := None)\<rparr>"

record LogStatistics =
  total :: nat
  errors :: nat
  warnings :: nat

text \<open>
  \<^verbatim>\<open>getLogStatistics\<close>; the JavaScript store compares
  \<^verbatim>\<open>e.level.toUpperCase()\<close>, which for the four level names is the level itself.
\<close>

definition getLogStatistics :: "MemStorage \<Rightarrow> jsstring \<Rightarrow> LogStatistics" where
  "getLogStatistics st f =
     (let entries = entries_of st f
      in \<lparr>total = length entries,
          errors = length (filter (\<lambda>e. level e = ERROR) entries),
          warnings = length (filter (\<lambda>e. level e = WARN) entries)\<rparr>)"

definition getLogFile :: "MemStorage \<Rightarrow> jsstring \<Rightarrow> LogFile option" where
  "getLogFile st i = logFiles st i"

text \<open>
  \<^verbatim>\<open>createLogFile({fileName, fileSize, status})\<close>; the status defaults to
  \<^verbatim>\<open>"active"\<close> when it is absent or empty.
\<close>

definition createLogFile ::
  "jsstring \<Rightarrow> jsstring \<Rightarrow> nat \<Rightarrow> jsstring option \<Rightarrow> MemStorage \<Rightarrow> LogFile \<times> MemStorage" where
  "createLogFile uuid name sz st0 st =
     (let file = \<lparr>LogFile.id' = uuid, LogFile.fileName = name, fileSize = sz,
                  status = (case or_null st0 of None \<Rightarrow> str ''active'' | Some s \<Rightarrow> s),
                  uploadedAt = DateNow\<rparr>
      in (file, st\<lparr>logFiles := (logFiles st)(uuid \<mapsto> file)\<rparr>))"

definition updateLogFileStatus :: "MemStorage \<Rightarrow> jsstring \<Rightarrow> jsstring \<Rightarrow> MemStorage" where
  "updateLogFileStatus st i s =
     (case logFiles st i of
        None \<Rightarrow> st
      | Some file \<Rightarrow> st\<lparr>logFiles := (logFiles st)(i \<mapsto> file\<lparr>status := s\<rparr>)\<rparr>)"

section \<open>The live feed (server/routes.ts: \<^verbatim>\<open>broadcast\<close>)\<close>

datatype message =
    StatusMsg jsstring
  | SubscribedMsg jsstring
  | LogEntryMsg LogEntry

text \<open>
  A connection of \<^verbatim>\<open>wss.clients\<close>: the file it subscribed to (undefined at first),
  whether \<^verbatim>\<open>send\<close> on it raises (the socket library decides that, not the
  repository), and what was sent on it.
\<close>

record client =
  subscribedFile :: "jsstring option"
  send_raises :: bool
  sent :: "message list"

definition send :: "message \<Rightarrow> client \<Rightarrow> error + client" where
  "send m c = (if send_raises c then Inl IOError else Inr (c\<lparr>sent := sent c @ [m]\<rparr>))"

text \<open>
  \<^verbatim>\<open>wss.clients.forEach((client) => { if (client.subscribedFile === fileName) client.send(...) })\<close>:
  nothing catches a raise of \<^verbatim>\<open>send\<close>, so it ends the iteration and leaves
  \<^verbatim>\<open>broadcast\<close>.
\<close>

fun broadcast :: "jsstring \<Rightarrow> LogEntry \<Rightarrow> client list \<Rightarrow> client list \<times> error option" where
  "broadcast f logEntry [] = ([], None)"
| "broadcast f logEntry (c # cs) =
     (if subscribedFile c = Some f then
        (case send (LogEntryMsg logEntry) c of
           Inl err \<Rightarrow> (c # cs, Some err)
         | Inr c' \<Rightarrow> (case broadcast f logEntry cs of (cs', r) \<Rightarrow> (c' # cs', r)))
      else (case broadcast f logEntry cs of (cs', r) \<Rightarrow> (c # cs', r)))"

section \<open>The upload handler (server/routes.ts: \<^verbatim>\<open>/api/upload\<close>)\<close>

text \<open>
  What the handler changes: the store, the connections, and how many UUIDs were drawn.
\<close>

record world =
  storage :: MemStorage
  clients :: "client list"
  uuids :: nat

text \<open>
  What the handler reads from outside the repository: the UUID generator (its
  \<open>k\<close>-th result), the file system, the encoding detector, the decoder and the
  validity of date strings. A call that raises returns its error.
\<close>

record env =
  randomUUID :: "nat \<Rightarrow> jsstring"
  readFileSync :: "jsstring \<Rightarrow> error + nat list"
  detect :: "nat list \<Rightarrow> jsstring option"
  decode :: "nat list \<Rightarrow> jsstring \<Rightarrow> error + jsstring"
  unlinkSync :: "jsstring \<Rightarrow> error option"
  valid_date :: "jsstring \<Rightarrow> bool"

text \<open>\<^verbatim>\<open>req.file\<close>\<close>

record upload_file =
  originalname :: jsstring
  size' :: nat
  path :: jsstring

datatype response =
    Processed jsstring jsstring nat nat
      \<comment> \<open>\<^verbatim>\<open>res.json({message, fileId, fileName, linesProcessed, errors})\<close>\<close>
  | NoFileUploaded      \<comment> \<open>\<^verbatim>\<open>res.status(400)\<close>\<close>
  | FailedToProcess     \<comment> \<open>\<^verbatim>\<open>res.status(500)\<close>\<close>

text \<open>\<^verbatim>\<open>toLowerCase\<close> on the ASCII letters (encoding labels are ASCII).\<close>

definition toLowerCase :: "jsstring \<Rightarrow> jsstring" where
  "toLowerCase = map (\<lambda>c. if 65 \<le> c \<and> c \<le> 90 then c + 32 else c)"

fun str_includes :: "jsstring \<Rightarrow> jsstring \<Rightarrow> bool" where
  "str_includes [] sub = (sub = [])"
| "str_includes (c # cs) sub = (take (length sub) (c # cs) = sub \<or> str_includes cs sub)"

text \<open>The codec that the chain of \<^verbatim>\<open>includes\<close> tests picks for a detected encoding.\<close>

definition pick_codec :: "jsstring \<Rightarrow> jsstring" where
  "pick_codec encoding =
     (let e = toLowerCase encoding in
      if str_includes e (str ''windows-1251'') \<or> str_includes e (str ''cp1251'') then str ''win1251''
      else if str_includes e (str ''cp866'') \<or> str_includes e (str ''ibm866'') then str ''cp866''
      else if str_includes e (str ''koi8'') then str ''koi8-r''
      else str ''utf8'')"

text \<open>\<^verbatim>\<open>{...parsed, fileName: logFile.id}\<close>\<close>

definition with_fileName :: "ParsedLogEntry \<Rightarrow> jsstring \<Rightarrow> InsertLogEntry" where
  "with_fileName parsed fid =
     \<lparr>lineNumber = lineNumber parsed, timestamp = timestamp parsed, level = level parsed,
      logger = logger parsed, message = message parsed, stackTrace = stackTrace parsed,
      fileName = fid\<rparr>"

text \<open>
  \<^verbatim>\<open>const logEntry = await storage.createLogEntry(...); broadcast(logFile.id, logEntry);\<close>
  The entry stays stored when the broadcast raises.
\<close>

definition store_and_broadcast ::
  "env \<Rightarrow> jsstring \<Rightarrow> InsertLogEntry \<Rightarrow> world \<Rightarrow> world \<times> error option" where
  "store_and_broadcast ev fid ins w =
     (case createLogEntry (randomUUID ev (uuids w)) ins (storage w) of
        (logEntry, st) \<Rightarrow>
          (case broadcast fid logEntry (clients w) of
             (cs, r) \<Rightarrow> (\<lparr>storage = st, clients = cs, uuids = Suc (uuids w)\<rparr>, r)))"

text \<open>The \<^verbatim>\<open>try\<close> block of a line that is not blank.\<close>

definition try_line :: "env \<Rightarrow> jsstring \<Rightarrow> jsstring \<Rightarrow> nat \<Rightarrow> world \<Rightarrow> world \<times> error option" where
  "try_line ev fid line n w =
     (case parseLogLine line n of
        Inl err \<Rightarrow> (w, Some err)
      | Inr parsed \<Rightarrow> store_and_broadcast ev fid (with_fileName parsed fid) w)"

text \<open>
  Its \<^verbatim>\<open>catch\<close> block: an INFO entry with the raw line is stored and broadcast. A
  raise in here leaves the loop.
\<close>

definition catch_line :: "env \<Rightarrow> jsstring \<Rightarrow> jsstring \<Rightarrow> nat \<Rightarrow> world \<Rightarrow> world \<times> error option" where
  "catch_line ev fid line n w =
     store_and_broadcast ev fid
       \<lparr>lineNumber = n, timestamp = TDate DateNow, level = INFO, logger = None,
        message = line, stackTrace = None, fileName = fid\<rparr> w"

text \<open>
  The loop over the lines. The state is the world, \<^verbatim>\<open>lineNumber\<close> and
  \<^verbatim>\<open>errorCount\<close>; the second component of the result is the error that left the
  loop, if one did.
\<close>

fun upload_loop ::
  "env \<Rightarrow> jsstring \<Rightarrow> jsstring list \<Rightarrow> world \<times> nat \<times> nat \<Rightarrow> (world \<times> nat \<times> nat) \<times> error option" where
  "upload_loop ev fid [] s = (s, None)"
| "upload_loop ev fid (line # lines) (w, lineNo, errorCount) =
     (if trim line \<noteq> [] then
        (case try_line ev fid line lineNo w of
           (w1, None) \<Rightarrow> upload_loop ev fid lines (w1, Suc lineNo, errorCount)
         | (w1, Some parseError) \<Rightarrow>
             (case catch_line ev fid line lineNo w1 of
                (w2, None) \<Rightarrow> upload_loop ev fid lines (w2, Suc lineNo, Suc errorCount)
              | (w2, Some err) \<Rightarrow> ((w2, lineNo, Suc errorCount), Some err)))
      else upload_loop ev fid lines (w, lineNo, errorCount))"

text \<open>
  The handler. Every raise inside its \<^verbatim>\<open>try\<close> ends in the one
  \<^verbatim>\<open>catch\<close>, which answers 500 and undoes nothing.
\<close>

definition upload :: "env \<Rightarrow> upload_file option \<Rightarrow> world \<Rightarrow> world \<times> response" where
  "upload ev file w =
     (case file of
        None \<Rightarrow> (w, NoFileUploaded)
      | Some f \<Rightarrow>
          (case createLogFile (randomUUID ev (uuids w)) (originalname f) (size' f)
                  (Some (str ''processing'')) (storage w) of
             (logFile, st1) \<Rightarrow>
               (let w1 = \<lparr>storage = st1, clients = clients w, uuids = Suc (uuids w)\<rparr> in
                case readFileSync ev (path f) of
                  Inl err \<Rightarrow> (w1, FailedToProcess)
                | Inr fileBuffer \<Rightarrow>
                    (let encoding = (case or_null (detect ev fileBuffer) of
                                       None \<Rightarrow> str ''utf-8'' | Some e \<Rightarrow> e) in
                     case decode ev fileBuffer (pick_codec encoding) of
                       Inl err \<Rightarrow> (w1, FailedToProcess)
                     | Inr fileContent \<Rightarrow>
                         (case upload_loop ev (LogFile.id' logFile) (split_lines fileContent) (w1, 1, 0) of
                            ((w2, lineNo, errorCount), Some err) \<Rightarrow> (w2, FailedToProcess)
                          | ((w2, lineNo, errorCount), None) \<Rightarrow>
                              (let w3 = w2\<lparr>storage :=
                                           updateLogFileStatus (storage w2) (LogFile.id' logFile) (str ''active'')\<rparr> in
                               case unlinkSync ev (path f) of
                                 Some err \<Rightarrow> (w3, FailedToProcess)
                               | None \<Rightarrow>
                                   (w3, Processed (LogFile.id' logFile) (LogFile.fileName logFile)
                                          (lineNo - 1) errorCount)))))))"

section \<open>The upload handler that merges stack traces\<close>

text \<open>
  A second server file of the repository has its own \<^verbatim>\<open>/api/upload\<close> handler,
  whose loop keeps \<^verbatim>\<open>lastEntry\<close> and appends a parsed stack trace to it. It calls
  \<^verbatim>\<open>storage.updateLogEntry\<close>, which neither store of the repository defines (the call
  would raise a TypeError); the loop is modelled for any \<open>updateLogEntry\<close>.

  \<^verbatim>\<open>lastEntry\<close> is the object that \<^verbatim>\<open>createLogEntry\<close> pushed last for this file, so
  the assignment to \<^verbatim>\<open>lastEntry.stackTrace\<close> changes the stored entry as well.
\<close>

definition set_last_stackTrace :: "jsstring \<Rightarrow> jsstring \<Rightarrow> MemStorage \<Rightarrow> MemStorage" where
  "set_last_stackTrace fid v st =
     (case logEntries st fid of
        None \<Rightarrow> st
      | Some es \<Rightarrow>
          (if es = [] then st
           else st\<lparr>logEntries := (logEntries st)(fid \<mapsto> butlast es @ [(last es)\<lparr>stackTrace := Some v\<rparr>])\<rparr>))"

text \<open>The \<^verbatim>\<open>try\<close> block of a line that is not blank; the state is the world and \<^verbatim>\<open>lastEntry\<close>.\<close>

definition try_line_merging ::
  "(LogEntry \<Rightarrow> MemStorage \<Rightarrow> error + MemStorage) \<Rightarrow> env \<Rightarrow> jsstring \<Rightarrow> jsstring \<Rightarrow> nat \<Rightarrow>
   world \<times> LogEntry option \<Rightarrow> (world \<times> LogEntry option) \<times> error option" where
  "try_line_merging updateLogEntry ev fid line n s =
     (case s of (w, lastEntry) \<Rightarrow>
      (case parseLogLine line n of
         Inl err \<Rightarrow> ((w, lastEntry), Some err)
       | Inr parsed \<Rightarrow>
           (case or_null (stackTrace parsed) of
              Some trace \<Rightarrow>
                (case lastEntry of
                   None \<Rightarrow> ((w, lastEntry), None)
                 | Some le \<Rightarrow>
                     (let v = (case or_null (stackTrace le) of None \<Rightarrow> [] | Some t \<Rightarrow> t) @ [10] @ trace;
                          le' = le\<lparr>stackTrace := Some v\<rparr>;
                          w1 = w\<lparr>storage := set_last_stackTrace fid v (storage w)\<rparr>
                      in case updateLogEntry le' (storage w1) of
                           Inl err \<Rightarrow> ((w1, Some le'), Some err)
                         | Inr st2 \<Rightarrow>
                             (case broadcast fid le' (clients w1) of
                                (cs, r) \<Rightarrow> ((w1\<lparr>storage := st2, clients := cs\<rparr>, Some le'), r))))
            | None \<Rightarrow>
                (case (case timestamp parsed of
                         TDate d \<Rightarrow> toISOString (valid_date ev) d
                       | TIso d \<Rightarrow> Inr (TIso d)) of
                   Inl err \<Rightarrow> ((w, lastEntry), Some err)
                 | Inr isoString \<Rightarrow>
                     (case createLogEntry (randomUUID ev (uuids w))
                             ((with_fileName parsed fid)\<lparr>timestamp := isoString\<rparr>) (storage w) of
                        (entry, st1) \<Rightarrow>
                          (case broadcast fid entry (clients w) of
                             (cs, r) \<Rightarrow>
                               ((\<lparr>storage = st1, clients = cs, uuids = Suc (uuids w)\<rparr>, Some entry), r)))))))"

text \<open>
  The loop: a raise in the \<^verbatim>\<open>try\<close> block only counts an error. The state is the
  world, \<^verbatim>\<open>lineNumber\<close>, \<^verbatim>\<open>processedCount\<close>, \<^verbatim>\<open>errorCount\<close> and
  \<^verbatim>\<open>lastEntry\<close>.
\<close>

fun upload_loop_merging ::
  "(LogEntry \<Rightarrow> MemStorage \<Rightarrow> error + MemStorage) \<Rightarrow> env \<Rightarrow> jsstring \<Rightarrow> jsstring list \<Rightarrow>
   world \<times> nat \<times> nat \<times> nat \<times> LogEntry option \<Rightarrow> world \<times> nat \<times> nat \<times> nat \<times> LogEntry option" where
  "upload_loop_merging updateLogEntry ev fid [] s = s"
| "upload_loop_merging updateLogEntry ev fid (line # lines)
       (w, lineNo, processedCount, errorCount, lastEntry) =
     (if trim line \<noteq> [] then
        (case try_line_merging updateLogEntry ev fid line lineNo (w, lastEntry) of
           ((w1, le1), None) \<Rightarrow>
             upload_loop_merging updateLogEntry ev fid lines
               (w1, Suc lineNo, Suc processedCount, errorCount, le1)
         | ((w1, le1), Some parseError) \<Rightarrow>
             upload_loop_merging updateLogEntry ev fid lines
               (w1, Suc lineNo, processedCount, Suc errorCount, le1))
      else upload_loop_merging updateLogEntry ev fid lines
             (w, lineNo, processedCount, errorCount, lastEntry))"

section \<open>Notions used in the statements and proofs\<close>

text \<open>The groups that every match of an expression sets.\<close>

fun sure :: "rx \<Rightarrow> nat set" where
  "sure (Seq a b) = sure a \<union> sure b"
| "sure (Alt a b) = sure a \<inter> sure b"
| "sure (Grp i a) = insert i (sure a)"
| "sure r = {}"

text \<open>Group \<open>i\<close> of an expression, wherever it stands, is the alternation of the level names.\<close>

fun level_group :: "nat \<Rightarrow> rx \<Rightarrow> bool" where
  "level_group i (Seq a b) = (level_group i a \<and> level_group i b)"
| "level_group i (Alt a b) = (level_group i a \<and> level_group i b)"
| "level_group i (Grp j a) = (if j = i then a = LEVELS else level_group i a)"
| "level_group i r = True"

definition level_name :: "LogLevel \<Rightarrow> jsstring" where
  "level_name l = (case l of ERROR \<Rightarrow> str ''ERROR'' | WARN \<Rightarrow> str ''WARN''
                   | INFO \<Rightarrow> str ''INFO'' | DEBUG \<Rightarrow> str ''DEBUG'')"

text \<open>
  The three shapes that the return statements of \<^verbatim>\<open>parseLogLine\<close> build: a match
  of a pattern sets the logger and no stack trace; the stack trace branch sets the stack
  trace, no logger, DEBUG and the empty message; the last return sets neither, and INFO.
\<close>

definition is_structural :: "ParsedLogEntry \<Rightarrow> bool" where
  "is_structural e = (logger e \<noteq> None \<and> stackTrace e = None)"

definition is_continuation :: "ParsedLogEntry \<Rightarrow> bool" where
  "is_continuation e = (stackTrace e \<noteq> None \<and> logger e = None \<and> level e = DEBUG \<and> message e = [])"

definition is_fallback :: "ParsedLogEntry \<Rightarrow> bool" where
  "is_fallback e = (logger e = None \<and> stackTrace e = None \<and> level e = INFO)"

text \<open>The last return of \<^verbatim>\<open>parseLogLine\<close>, for the trimmed line \<open>t\<close>.\<close>

definition fallback_entry :: "jsstring \<Rightarrow> nat \<Rightarrow> ParsedLogEntry" where
  "fallback_entry t n =
     \<lparr>lineNumber = n, timestamp = TDate DateNow, level = INFO, logger = None,
      message = t, stackTrace = None\<rparr>"

text \<open>A line that starts with a time and no date: two digits and a colon.\<close>

definition bare_time :: "jsstring \<Rightarrow> bool" where
  "bare_time t = (case t of h1 # h2 # c # rest \<Rightarrow> is_digit h1 \<and> is_digit h2 \<and> c = 58 | _ \<Rightarrow> False)"

text \<open>No stored entry has an empty logger or an empty stack trace.\<close>

definition entry_ok :: "LogEntry \<Rightarrow> bool" where
  "entry_ok e = (logger e \<noteq> Some [] \<and> stackTrace e \<noteq> Some [])"

definition store_ok :: "MemStorage \<Rightarrow> bool" where
  "store_ok st = (\<forall>f. list_all entry_ok (entries_of st f))"


definition deliver :: "jsstring \<Rightarrow> LogEntry \<Rightarrow> client \<Rightarrow> client" where
  "deliver f e c = (if subscribedFile c = Some f then c\<lparr>sent := sent c @ [LogEntryMsg e]\<rparr> else c)"

definition no_send_raises :: "world \<Rightarrow> bool" where
  "no_send_raises w = list_all (\<lambda>c. \<not> send_raises c) (clients w)"

text \<open>The status of a file of the store, if the store has the file.\<close>

definition status_of :: "world \<Rightarrow> jsstring \<Rightarrow> jsstring option" where
  "status_of w fid = map_option LogFile.status (getLogFile (storage w) fid)"

text \<open>What the claims say of a stored entry: line number, level, logger, message, stack trace.\<close>

definition summary :: "LogEntry \<Rightarrow> nat \<times> LogLevel \<times> jsstring option \<times> jsstring \<times> jsstring option" where
  "summary e = (lineNumber e, level e, logger e, message e, stackTrace e)"

definition stored :: "world \<Rightarrow> jsstring \<Rightarrow> (nat \<times> LogLevel \<times> jsstring option \<times> jsstring \<times> jsstring option) list" where
  "stored w fid = map summary (entries_of (storage w) fid)"

text \<open>
  The lines of a file with their line numbers, and what the loop of \<^verbatim>\<open>routes.ts\<close>
  stores for a numbered line that is not blank: the parse result, with no stack trace.
\<close>

fun numbered :: "nat \<Rightarrow> 'a list \<Rightarrow> (nat \<times> 'a) list" where
  "numbered n [] = []"
| "numbered n (x # xs) = (n, x) # numbered (Suc n) xs"

definition parsed_summary ::
  "nat \<times> jsstring \<Rightarrow> nat \<times> LogLevel \<times> jsstring option \<times> jsstring \<times> jsstring option" where
  "parsed_summary p =
     (case parseLogLine (snd p) (fst p) of
        Inr e \<Rightarrow> (lineNumber e, level e, or_null (logger e), message e, None)
      | Inl err \<Rightarrow> (fst p, INFO, None, snd p, None))"

text \<open>Concrete values for the examples.\<close>

definition example_entry :: "nat \<Rightarrow> LogLevel \<Rightarrow> LogEntry" where
  "example_entry k l =
     \<lparr>lineNumber = k, timestamp = TDate DateNow, level = l, logger = None,
      message = str ''line'', stackTrace = None, fileName = str ''f1'',
      id' = [48 + k], createdAt = DateNow\<rparr>"

definition example_file_record :: LogFile where
  "example_file_record =
     \<lparr>LogFile.id' = str ''f1'', LogFile.fileName = str ''a.log'', fileSize = 5,
      status = str ''active'', uploadedAt = DateNow\<rparr>"

definition example_store :: MemStorage where
  "example_store =
     \<lparr>logEntries = [str ''f1'' \<mapsto> [example_entry 1 ERROR, example_entry 2 WARN,
                                    example_entry 3 WARN, example_entry 4 INFO]],
      logFiles = [str ''f1'' \<mapsto> example_file_record]\<rparr>"

definition example_env :: "error + nat list \<Rightarrow> error + jsstring \<Rightarrow> error option \<Rightarrow> env" where
  "example_env readResult decodeResult unlinkResult =
     \<lparr>randomUUID = (\<lambda>k. [48 + k]), readFileSync = (\<lambda>p. readResult), detect = (\<lambda>b. None),
      decode = (\<lambda>b c. decodeResult), unlinkSync = (\<lambda>p. unlinkResult), valid_date = (\<lambda>s. True)\<rparr>"

definition new_world :: world where
  "new_world = \<lparr>storage = new_MemStorage, clients = [], uuids = 0\<rparr>"

definition example_file :: upload_file where
  "example_file = \<lparr>originalname = str ''a.log'', size' = 5, path = str ''uploads/1''\<rparr>"


section \<open>The matcher and the parser\<close>

lemmas cls_defs = is_word_def is_space_def is_dot_def is_digit_def is_logger_char_def

lemmas rx_defs = str_def lits_def many1_def d2_def d3_def d4_def LEVELS_def

text \<open>
  A match keeps the number of captures and every capture that is set, and it sets the
  groups that the expression is sure to set.
\<close>

lemma ms_length_sure:
  "(r, cs') \<in> set (ms inp x (s, cs)) \<Longrightarrow>
   length cs' = length cs \<and> (\<forall>i<length cs. (i \<in> sure x \<or> cs ! i \<noteq> None) \<longrightarrow> cs' ! i \<noteq> None)"
proof (induction x arbitrary: s cs r cs')
  case (Seq a b)
  from Seq.prems obtain s1 cs1 where a: "(s1, cs1) \<in> set (ms inp a (s, cs))"
    and b: "(r, cs') \<in> set (ms inp b (s1, cs1))" by auto
  from Seq.IH(1)[OF a] Seq.IH(2)[OF b] show ?case by auto
next
  case (Alt a b)
  then show ?case by auto
next
  case (Grp i a)
  from Grp.prems obtain cs1 where a: "(r, cs1) \<in> set (ms inp a (s, cs))"
    and c: "cs' = cs1[i := Some (take (length s - length r) s)]" by auto
  from Grp.IH[OF a] have len: "length cs1 = length cs"
    and P: "\<And>k. k < length cs \<Longrightarrow> k \<in> sure a \<or> cs ! k \<noteq> None \<Longrightarrow> cs1 ! k \<noteq> None"
    by auto
  have "cs' ! k \<noteq> None" if k: "k < length cs" "k \<in> sure (Grp i a) \<or> cs ! k \<noteq> None" for k
  proof (cases "k = i")
    case True
    with k len c show ?thesis by simp
  next
    case False
    with k c P [of k] show ?thesis by auto
  qed
  with len c show ?case by simp
qed (auto split: list.splits if_splits)

text \<open>
  The alternation of the level names consumes one of the four names and sets nothing.
\<close>

lemma ms_LEVELS_cases:
  "(r, cs') \<in> set (ms inp LEVELS (s, cs)) \<Longrightarrow>
   cs' = cs \<and> (s = level_name ERROR @ r \<or> s = level_name WARN @ r \<or>
              s = level_name INFO @ r \<or> s = level_name DEBUG @ r)"
  by (auto simp: LEVELS_def lits_def str_def level_name_def split: list.splits if_splits)

lemma ms_LEVELS:
  "(r, cs') \<in> set (ms inp LEVELS (s, cs)) \<Longrightarrow> cs' = cs \<and> (\<exists>l. s = level_name l @ r)"
  using ms_LEVELS_cases by blast

lemma as_LogLevel_level_name: "as_LogLevel (toUpperCase (level_name l)) = Some l"
  by (cases l) (simp_all add: as_LogLevel_def toUpperCase_def level_name_def str_def)

text \<open>
  A capture of a level group is a level name.
\<close>

lemma ms_level_group:
  "(r, cs') \<in> set (ms inp x (s, cs)) \<Longrightarrow> level_group i x \<Longrightarrow>
   cs ! i = None \<or> (\<exists>l. cs ! i = Some (level_name l)) \<Longrightarrow> i < length cs \<Longrightarrow>
   cs' ! i = None \<or> (\<exists>l. cs' ! i = Some (level_name l))"
proof (induction x arbitrary: s cs r cs')
  case (Seq a b)
  from Seq.prems obtain s1 cs1 where a: "(s1, cs1) \<in> set (ms inp a (s, cs))"
    and b: "(r, cs') \<in> set (ms inp b (s1, cs1))" by auto
  from ms_length_sure[OF a] have len: "length cs1 = length cs" by simp
  from Seq.IH(1)[OF a] Seq.prems have "cs1 ! i = None \<or> (\<exists>l. cs1 ! i = Some (level_name l))" by simp
  from Seq.IH(2)[OF b _ this] Seq.prems len show ?case by simp
next
  case (Alt a b)
  from Alt.prems(1) have "(r, cs') \<in> set (ms inp a (s, cs)) \<or> (r, cs') \<in> set (ms inp b (s, cs))"
    by simp
  then show ?case
  proof
    assume a: "(r, cs') \<in> set (ms inp a (s, cs))"
    from Alt.IH(1)[OF a _ Alt.prems(3) Alt.prems(4)] Alt.prems(2) show ?thesis by simp
  next
    assume b: "(r, cs') \<in> set (ms inp b (s, cs))"
    from Alt.IH(2)[OF b _ Alt.prems(3) Alt.prems(4)] Alt.prems(2) show ?thesis by simp
  qed
next
  case (Grp j a)
  from Grp.prems obtain cs1 where a: "(r, cs1) \<in> set (ms inp a (s, cs))"
    and c: "cs' = cs1[j := Some (take (length s - length r) s)]" by auto
  from ms_length_sure[OF a] have len: "length cs1 = length cs" by simp
  show ?case
  proof (cases "j = i")
    case True
    with Grp.prems(2) have "a = LEVELS" by simp
    with a ms_LEVELS obtain l where "s = level_name l @ r" by blast
    then have "take (length s - length r) s = level_name l" by simp
    with c True len Grp.prems(4) show ?thesis by auto
  next
    case False
    with Grp.prems(2) have "level_group i a" by simp
    from Grp.IH[OF a this Grp.prems(3) Grp.prems(4)] c False show ?thesis by simp
  qed
qed (auto split: list.splits if_splits)

text \<open>
  An expression that starts with \<^verbatim>\<open>^\<close> matches at the start of the line or not at all.
\<close>

lemma match_from_Bos_None: "length s < length inp \<Longrightarrow> match_from (Seq Bos r) inp s = None"
  by (induction s) auto

lemma match_anchored:
  "match line (Seq Bos r) =
     (case ms line r (line, replicate (Suc (ngroups r)) None) of
        [] \<Rightarrow> None
      | (rest, cs) # _ \<Rightarrow> Some (cs[0 := Some (take (length line - length rest) line)]))"
  by (cases line) (auto simp: match_def match_from_Bos_None split: list.splits)

text \<open>
  A trimmed line does not start with white space.
\<close>

lemma hd_trim: "trim s = c # cs \<Longrightarrow> \<not> is_space c"
proof -
  assume t: "trim s = c # cs"
  define ys where "ys = dropWhile is_space s"
  have tr: "trim s = rev (dropWhile is_space (rev ys))" by (simp add: trim_def ys_def)
  have "ys \<noteq> []" using t tr by auto
  then obtain y ys' where y: "ys = y # ys'" by (cases ys) auto
  then have ny: "\<not> is_space y" using hd_dropWhile[of is_space s] by (simp add: ys_def)
  have "dropWhile is_space (rev ys' @ [y]) = dropWhile is_space (rev ys') @ [y]"
    using ny by (simp add: dropWhile_append)
  then have "trim s = y # rev (dropWhile is_space (rev ys'))"
    using y tr by simp
  with t ny show ?thesis by simp
qed

text \<open>
  The groups of the three patterns.
\<close>

lemma PATTERN_MAIN_anchored: "\<exists>body. PATTERN_MAIN = Seq Bos body \<and> ngroups body = 3 \<and> {1, 2, 3} \<subseteq> sure body \<and> level_group 2 body"
  by (simp add: PATTERN_MAIN_def rx_defs)

lemma PATTERN_LOCALE_anchored: "\<exists>body. PATTERN_LOCALE = Seq Bos body \<and> ngroups body = 4 \<and> {1, 2, 3, 4} \<subseteq> sure body \<and> level_group 2 body"
  by (simp add: PATTERN_LOCALE_def rx_defs)

lemma match_groups:
  assumes m: "match t (Seq Bos body) = Some m"
  shows "length m = Suc (ngroups body) \<and>
         (\<forall>i \<in> sure body. 0 < i \<longrightarrow> i \<le> ngroups body \<longrightarrow> (\<exists>v. m ! i = Some v)) \<and>
         (\<forall>i. 0 < i \<longrightarrow> i \<le> ngroups body \<longrightarrow> level_group i body \<longrightarrow> m ! i = None \<or> (\<exists>l. m ! i = Some (level_name l)))"
proof -
  let ?init = "replicate (Suc (ngroups body)) (None :: jsstring option)"
  from m obtain rest cs where hd: "ms t body (t, ?init) \<noteq> []" "hd (ms t body (t, ?init)) = (rest, cs)"
    and mm: "m = cs[0 := Some (take (length t - length rest) t)]"
    by (auto simp: match_anchored split: list.splits)
  then have mem: "(rest, cs) \<in> set (ms t body (t, ?init))" by (metis hd_in_set)
  from ms_length_sure[OF mem] have len: "length cs = Suc (ngroups body)"
    and s: "\<And>i. i < Suc (ngroups body) \<Longrightarrow> i \<in> sure body \<Longrightarrow> cs ! i \<noteq> None" by auto
  have l: "cs ! i = None \<or> (\<exists>l. cs ! i = Some (level_name l))" if "level_group i body" "i \<le> ngroups body" for i
  proof -
    from that(2) have "i < Suc (ngroups body)" by simp
    then have "?init ! i = None" "i < length ?init" by (simp_all del: replicate_Suc)
    with ms_level_group[OF mem that(1)] show ?thesis by blast
  qed
  show ?thesis using len s l mm by auto
qed

lemma match_groups_sure:
  "match t (Seq Bos body) = Some m \<Longrightarrow> i \<in> sure body \<Longrightarrow> 0 < i \<Longrightarrow> i \<le> ngroups body \<Longrightarrow>
   \<exists>v. m ! i = Some v"
  using match_groups[of t body m] by blast

lemma match_groups_level:
  "match t (Seq Bos body) = Some m \<Longrightarrow> i \<in> sure body \<Longrightarrow> level_group i body \<Longrightarrow> 0 < i \<Longrightarrow>
   i \<le> ngroups body \<Longrightarrow> \<exists>l. m ! i = Some (level_name l)"
  using match_groups[of t body m] by (metis option.distinct(1))

lemma match_groups_length:
  "match t (Seq Bos body) = Some m \<Longrightarrow> length m = Suc (ngroups body)"
  using match_groups[of t body m] by blast

lemma match_MAIN:
  assumes "match t PATTERN_MAIN = Some m"
  shows "length m = 4 \<and> (\<exists>m1 l m3. m ! 1 = Some m1 \<and> m ! 2 = Some (level_name l) \<and> m ! 3 = Some m3)"
proof -
  from PATTERN_MAIN_anchored obtain body where b: "PATTERN_MAIN = Seq Bos body" "ngroups body = 3"
    "{1, 2, 3} \<subseteq> sure body" "level_group 2 body" by blast
  from assms b(1) have m: "match t (Seq Bos body) = Some m" by simp
  from match_groups_length[OF m] b(2) have "length m = 4" by simp
  moreover from match_groups_sure[OF m, of 1] b obtain m1 where "m ! 1 = Some m1" by auto
  moreover from match_groups_level[OF m, of 2] b obtain l where "m ! 2 = Some (level_name l)" by auto
  moreover from match_groups_sure[OF m, of 3] b obtain m3 where "m ! 3 = Some m3" by auto
  ultimately show ?thesis by blast
qed

lemma match_LOCALE:
  assumes "match t PATTERN_LOCALE = Some m"
  shows "length m = 5 \<and> (\<exists>m1 l m3 m4. m ! 1 = Some m1 \<and> m ! 2 = Some (level_name l) \<and> m ! 3 = Some m3 \<and> m ! 4 = Some m4)"
proof -
  from PATTERN_LOCALE_anchored obtain body where b: "PATTERN_LOCALE = Seq Bos body" "ngroups body = 4"
    "{1, 2, 3, 4} \<subseteq> sure body" "level_group 2 body" by blast
  from assms b(1) have m: "match t (Seq Bos body) = Some m" by simp
  from match_groups_length[OF m] b(2) have "length m = 5" by simp
  moreover from match_groups_sure[OF m, of 1] b obtain m1 where "m ! 1 = Some m1" by auto
  moreover from match_groups_level[OF m, of 2] b obtain l where "m ! 2 = Some (level_name l)" by auto
  moreover from match_groups_sure[OF m, of 3] b obtain m3 where "m ! 3 = Some m3" by auto
  moreover from match_groups_sure[OF m, of 4] b obtain m4 where "m ! 4 = Some m4" by auto
  ultimately show ?thesis by blast
qed

text \<open>
  The stack pattern needs white space at the start of the line, so it matches no trimmed line.
\<close>

lemma match_STACK_needs_space: "\<not> is_space c \<Longrightarrow> match (c # cs) PATTERN_STACK = None"
  by (simp add: PATTERN_STACK_def many1_def match_anchored)

text \<open>
  The record builders raise nothing on a match of their pattern.
\<close>

lemma entry_of_match4_ok:
  "match t PATTERN_MAIN = Some m \<Longrightarrow>
   \<exists>m1 l m3. entry_of_match4 m n =
     Inr \<lparr>lineNumber = n, timestamp = TDate (DateOf (replace_first 44 46 m1)), level = l,
          logger = Some (str ''main''), message = m3, stackTrace = None\<rparr>"
proof -
  assume "match t PATTERN_MAIN = Some m"
  from match_MAIN[OF this] obtain m1 l m3 where
    "m ! 1 = Some m1" "m ! 2 = Some (level_name l)" "m ! 3 = Some m3" by blast
  then show ?thesis by (auto simp add: entry_of_match4_def as_LogLevel_level_name)
qed

lemma entry_of_match5_ok:
  "match t PATTERN_LOCALE = Some m \<Longrightarrow>
   \<exists>m1 l m3 m4. entry_of_match5 m n =
     Inr \<lparr>lineNumber = n, timestamp = TDate (DateOf (timestampStr m1)), level = l,
          logger = Some m3, message = m4, stackTrace = None\<rparr>"
proof -
  assume "match t PATTERN_LOCALE = Some m"
  from match_LOCALE[OF this] obtain m1 l m3 m4 where
    "m ! 1 = Some m1" "m ! 2 = Some (level_name l)" "m ! 3 = Some m3" "m ! 4 = Some m4" by blast
  then show ?thesis by (auto simp add: entry_of_match5_def as_LogLevel_level_name)
qed

text \<open>
  What \<^verbatim>\<open>parseLogLine\<close> returns for a line that is not blank.
\<close>

lemma parseLogLine_nonblank:
  assumes "trim line \<noteq> []"
  shows "parseLogLine line n =
     (case match (trim line) PATTERN_MAIN of
        Some m \<Rightarrow> entry_of_match4 m n
      | None \<Rightarrow>
          (case match (trim line) PATTERN_LOCALE of
             Some m \<Rightarrow> entry_of_match5 m n
           | None \<Rightarrow> Inr (fallback_entry (trim line) n)))"
proof -
  from assms obtain c cs where t: "trim line = c # cs" by (cases "trim line") auto
  from hd_trim[OF t] have st: "match (trim line) PATTERN_STACK = None"
    by (simp add: t match_STACK_needs_space)
  show ?thesis
  proof (cases "match (trim line) PATTERN_MAIN")
    case (Some m)
    from match_MAIN[OF Some] have len: "length m = 4" by simp
    from entry_of_match4_ok[OF Some, of n] obtain e where e: "entry_of_match4 m n = Inr e" by blast
    from Some len e assms show ?thesis
      by (simp add: parseLogLine_def TOMCAT_PATTERNS_def Let_def)
  next
    case None
    note n1 = None
    show ?thesis
    proof (cases "match (trim line) PATTERN_LOCALE")
      case (Some m)
      from match_LOCALE[OF Some] have len: "length m = 5" by simp
      from entry_of_match5_ok[OF Some, of n] obtain e where e: "entry_of_match5 m n = Inr e" by blast
      from Some len e assms n1 show ?thesis
        by (simp add: parseLogLine_def TOMCAT_PATTERNS_def Let_def)
    next
      case None
      with n1 st assms show ?thesis
        by (simp add: parseLogLine_def TOMCAT_PATTERNS_def Let_def fallback_entry_def)
    qed
  qed
qed

lemmas parse_defs = parseLogLine_def trim_def TOMCAT_PATTERNS_def PATTERN_MAIN_def PATTERN_LOCALE_def
  PATTERN_STACK_def match_def cls_defs rx_defs entry_of_match4_def entry_of_match5_def timestampStr_def
  str_slice_def str_slice_from_def as_LogLevel_def toUpperCase_def

text \<open>
  Lines that start with a time.
\<close>

lemma bare_time_no_match:
  assumes "bare_time t"
  shows "match t PATTERN_MAIN = None \<and> match t PATTERN_LOCALE = None"
proof -
  from assms obtain h1 h2 rest where t: "t = h1 # h2 # 58 # rest" "is_digit h1" "is_digit h2"
    by (auto simp: bare_time_def split: list.splits)
  have "match t PATTERN_MAIN = None"
    by (simp add: t PATTERN_MAIN_def match_anchored d4_def d2_def is_digit_def)
  moreover have "match t PATTERN_LOCALE = None"
    by (simp add: t PATTERN_LOCALE_def match_anchored d2_def lits_def str_def)
  ultimately show ?thesis by simp
qed

lemma bare_time_fallback:
  assumes "bare_time (trim line)"
  shows "parseLogLine line n = Inr (fallback_entry (trim line) n)"
proof -
  from assms have "trim line \<noteq> []" by (auto simp: bare_time_def)
  from parseLogLine_nonblank[OF this, of n] bare_time_no_match[OF assms] show ?thesis by simp
qed

lemma parseLogLine_total:
  assumes "trim line \<noteq> []"
  shows "\<exists>e. parseLogLine line n = Inr e \<and> lineNumber e = n \<and> stackTrace e = None \<and>
             (logger e \<noteq> None \<or> e = fallback_entry (trim line) n)"
proof (cases "match (trim line) PATTERN_MAIN")
  case (Some m)
  from entry_of_match4_ok[OF Some, of n] parseLogLine_nonblank[OF assms, of n] Some
  show ?thesis by auto
next
  case None
  note n1 = None
  show ?thesis
  proof (cases "match (trim line) PATTERN_LOCALE")
    case (Some m)
    from entry_of_match5_ok[OF Some, of n] parseLogLine_nonblank[OF assms, of n] Some n1
    show ?thesis by auto
  next
    case None
    with n1 parseLogLine_nonblank[OF assms, of n] show ?thesis
      by (simp add: fallback_entry_def)
  qed
qed

lemma parseLogLine_blank: "trim line = [] \<Longrightarrow> parseLogLine line n = Inl EmptyLine"
  by (simp add: parseLogLine_def)

text \<open>
  Both loops skip the blank lines.
\<close>

lemma upload_loop_skips_blank:
  "upload_loop ev fid lines s = upload_loop ev fid (filter (\<lambda>l. trim l \<noteq> []) lines) s"
proof (induction lines arbitrary: s)
  case Nil show ?case by simp
next
  case (Cons l ls)
  obtain w k errs where s: "s = (w, k, errs)" by (cases s) auto
  show ?case by (simp add: s Cons.IH split: prod.splits option.splits)
qed

lemma upload_loop_merging_skips_blank:
  "upload_loop_merging upd ev fid lines s = upload_loop_merging upd ev fid (filter (\<lambda>l. trim l \<noteq> []) lines) s"
proof (induction lines arbitrary: s)
  case Nil show ?case by simp
next
  case (Cons l ls)
  obtain w k p errs le where s: "s = (w, k, p, errs, le)" by (cases s) auto
  show ?case by (simp add: s Cons.IH split: prod.splits option.splits)
qed

text \<open>
  The parser on the lines of the examples.
\<close>

lemma ex_main: "parseLogLine (str ''2024-01-01 10:00:00,000 main ERROR boom'') n =
  Inr \<lparr>lineNumber = n, timestamp = TDate (DateOf (str ''2024-01-01 10:00:00.000'')), level = ERROR,
       logger = Some (str ''main''), message = str ''boom'', stackTrace = None\<rparr>"
  by (simp add: parse_defs)

lemma ex_iso: "parseLogLine (str ''2024-01-01 10:00:00.000 ERROR [svc] boom'') n =
  Inr (fallback_entry (str ''2024-01-01 10:00:00.000 ERROR [svc] boom'') n)"
  by (simp add: parse_defs fallback_entry_def)

lemma ex_frame: "parseLogLine (str ''  at foo.bar(Baz.java:10)'') n =
  Inr (fallback_entry (str ''at foo.bar(Baz.java:10)'') n)"
  by (simp add: parse_defs fallback_entry_def)

section \<open>The store, the live feed and the upload loop\<close>


lemma broadcast_no_raise:
  "list_all (\<lambda>c. \<not> send_raises c) cs \<Longrightarrow>
   broadcast f e cs = (map (deliver f e) cs, None) \<and> list_all (\<lambda>c. \<not> send_raises c) (map (deliver f e) cs)"
  by (induction cs) (auto simp: deliver_def send_def)

text \<open>
  When no send raises, the loop of \<^verbatim>\<open>routes.ts\<close> never enters a catch block, ends
  without an error and leaves the files of the store alone.
\<close>

lemma store_and_broadcast_ok:
  assumes "no_send_raises w"
  shows "\<exists>w'. store_and_broadcast ev fid ins w = (w', None) \<and> no_send_raises w' \<and>
              logFiles (storage w') = logFiles (storage w)"
  using assms broadcast_no_raise[of "clients w" fid]
  by (auto simp: store_and_broadcast_def no_send_raises_def createLogEntry_def Let_def split: prod.splits)

lemma try_line_ok:
  assumes "no_send_raises w" "trim line \<noteq> []"
  shows "\<exists>w'. try_line ev fid line n w = (w', None) \<and> no_send_raises w' \<and>
              logFiles (storage w') = logFiles (storage w)"
proof -
  from parseLogLine_total[OF assms(2), of n] obtain e where "parseLogLine line n = Inr e" by blast
  with store_and_broadcast_ok[OF assms(1)] show ?thesis by (simp add: try_line_def)
qed

lemma upload_loop_ok:
  "no_send_raises w \<Longrightarrow>
   \<exists>w' k. upload_loop ev fid lines (w, n, errs) = ((w', k, errs), None) \<and> no_send_raises w' \<and>
          logFiles (storage w') = logFiles (storage w) \<and> k = n + length (filter (\<lambda>l. trim l \<noteq> []) lines)"
proof (induction lines arbitrary: w n)
  case Nil then show ?case by simp
next
  case (Cons l ls)
  show ?case
  proof (cases "trim l = []")
    case True
    with Cons.IH[OF Cons.prems, of n] show ?thesis by simp
  next
    case False
    from try_line_ok[OF Cons.prems False, of ev fid n] obtain w1 where
      w1: "try_line ev fid l n w = (w1, None)" "no_send_raises w1" "logFiles (storage w1) = logFiles (storage w)"
      by blast
    from Cons.IH[OF w1(2), of "Suc n"] w1 False show ?thesis by auto
  qed
qed

text \<open>
  The handler, by the place of the first raise.
\<close>

lemma upload_read_fails:
  assumes "readFileSync ev (path f) = Inl err"
  shows "\<exists>w'. upload ev (Some f) w = (w', FailedToProcess) \<and>
          status_of w' (randomUUID ev (uuids w)) = Some (str ''processing'')"
  using assms
  by (simp add: upload_def createLogFile_def Let_def status_of_def getLogFile_def or_null_def str_def)

lemma upload_decode_fails:
  assumes "readFileSync ev (path f) = Inr buf"
    "decode ev buf (pick_codec (case or_null (detect ev buf) of None \<Rightarrow> str ''utf-8'' | Some e \<Rightarrow> e)) = Inl err"
  shows "\<exists>w'. upload ev (Some f) w = (w', FailedToProcess) \<and>
          status_of w' (randomUUID ev (uuids w)) = Some (str ''processing'')"
  using assms
  by (simp add: upload_def createLogFile_def Let_def status_of_def getLogFile_def or_null_def str_def)

lemma upload_completes:
  assumes r: "readFileSync ev (path f) = Inr buf"
    and d: "decode ev buf (pick_codec (case or_null (detect ev buf) of None \<Rightarrow> str ''utf-8'' | Some e \<Rightarrow> e)) = Inr content"
    and n: "no_send_raises w"
  shows "\<exists>w'. upload ev (Some f) w =
            (w', if unlinkSync ev (path f) = None
                 then Processed (randomUUID ev (uuids w)) (originalname f)
                        (length (filter (\<lambda>l. trim l \<noteq> []) (split_lines content))) 0
                 else FailedToProcess) \<and>
          status_of w' (randomUUID ev (uuids w)) = Some (str ''active'')"
proof -
  let ?fid = "randomUUID ev (uuids w)"
  obtain logFile st1 where c: "createLogFile ?fid (originalname f) (size' f) (Some (str ''processing'')) (storage w) = (logFile, st1)"
    by (cases "createLogFile ?fid (originalname f) (size' f) (Some (str ''processing'')) (storage w)") auto
  then have lf: "LogFile.id' logFile = ?fid" "LogFile.fileName logFile = originalname f"
    "logFiles st1 ?fid = Some logFile"
    by (auto simp: createLogFile_def Let_def)
  let ?w1 = "\<lparr>storage = st1, clients = clients w, uuids = Suc (uuids w)\<rparr>"
  from n have n1: "no_send_raises ?w1" by (simp add: no_send_raises_def)
  from upload_loop_ok[OF n1, of ev ?fid "split_lines content" 1 0] obtain w2 k where
    l: "upload_loop ev ?fid (split_lines content) (?w1, 1, 0) = ((w2, k, 0), None)"
      "logFiles (storage w2) = logFiles (storage ?w1)"
      "k = 1 + length (filter (\<lambda>l. trim l \<noteq> []) (split_lines content))"
    by blast
  show ?thesis
    using r d c lf l
    by (cases "unlinkSync ev (path f)")
       (simp_all add: upload_def Let_def status_of_def getLogFile_def updateLogFileStatus_def)
qed

lemma trim_examples:
  "trim (str ''2024-01-01 10:00:00.000 ERROR [svc] boom'') = str ''2024-01-01 10:00:00.000 ERROR [svc] boom''"
  "trim (str ''2024-01-01 10:00:00,000 main ERROR boom'') = str ''2024-01-01 10:00:00,000 main ERROR boom''"
  "trim (str ''  at foo.bar(Baz.java:10)'') = str ''at foo.bar(Baz.java:10)''"
  "trim (str ''  at qux.quux(Quux.java:20)'') = str ''at qux.quux(Quux.java:20)''"
  by (simp_all add: trim_def str_def is_space_def)

lemma ex_frame2: "parseLogLine (str ''  at qux.quux(Quux.java:20)'') n =
  Inr (fallback_entry (str ''at qux.quux(Quux.java:20)'') n)"
  by (simp add: parse_defs fallback_entry_def)

lemma str_nonempty: "str (c # cs) \<noteq> []"
  by (simp add: str_def)

text \<open>
  Reads with a limit and an offset that are not negative.
\<close>

lemma slice_nonneg: "slice xs (int i) (int i + int n) = take n (drop i xs)"
  by (auto simp: slice_def Let_def min_def max_def nat_diff_distrib' nat_add_distrib)

lemma getLogEntries_take_drop:
  "getLogEntries st f (int limit) (int offset) = take limit (drop offset (entries_of st f))"
  by (simp add: getLogEntries_def slice_nonneg)

lemma getLogEntries_js_take_drop:
  "getLogEntries_js valid st f (int limit) (int offset) =
   map_raise (entry_json valid) (take limit (drop offset (entries_of st f)))"
  by (simp add: getLogEntries_js_def slice_nonneg)

lemma map_raise_append:
  "map_raise g (xs @ ys) =
     (case map_raise g xs of
        Inl err \<Rightarrow> Inl err
      | Inr a \<Rightarrow> (case map_raise g ys of Inl err \<Rightarrow> Inl err | Inr b \<Rightarrow> Inr (a @ b)))"
  by (induction xs) (auto split: sum.splits)

text \<open>
  What \<^verbatim>\<open>createLogEntry\<close> stores, and the operations that keep the store free of empty
  loggers and stack traces.
\<close>

lemma createLogEntry_facts:
  "case createLogEntry uuid ins st of (e, st') \<Rightarrow>
     LogEntry.id' e = uuid \<and> logger e = or_null (logger ins) \<and> stackTrace e = or_null (stackTrace ins) \<and>
     entry_ok e \<and>
     entries_of st' (InsertLogEntry.fileName ins) = entries_of st (InsertLogEntry.fileName ins) @ [e] \<and>
     (\<forall>g. g \<noteq> InsertLogEntry.fileName ins \<longrightarrow> entries_of st' g = entries_of st g) \<and>
     (store_ok st \<longrightarrow> store_ok st')"
  by (auto simp: createLogEntry_def Let_def entry_ok_def or_null_def store_ok_def entries_of_def
           split: option.splits)

lemma store_ok_others:
  "store_ok new_MemStorage"
  "store_ok st \<Longrightarrow> store_ok (clearLogEntries st f)"
  "store_ok st \<Longrightarrow> store_ok (deleteLogFile st f)"
  "store_ok st \<Longrightarrow> store_ok (updateLogFileStatus st f s)"
  "store_ok st \<Longrightarrow> store_ok (snd (createLogFile uuid name sz st0 st))"
  by (auto simp: store_ok_def new_MemStorage_def clearLogEntries_def deleteLogFile_def
        updateLogFileStatus_def createLogFile_def entries_of_def Let_def split: option.splits)

lemma store_ok_set_last_stackTrace:
  assumes "store_ok st" "v \<noteq> []"
  shows "store_ok (set_last_stackTrace fid v st)"
proof (cases "logEntries st fid")
  case None
  with assms show ?thesis by (simp add: set_last_stackTrace_def)
next
  case (Some es)
  show ?thesis
  proof (cases "es = []")
    case True
    with Some assms show ?thesis by (simp add: set_last_stackTrace_def)
  next
    case False
    from assms(1) Some have ok: "list_all entry_ok es"
      by (auto simp: store_ok_def entries_of_def split: option.splits dest: spec[of _ fid])
    from False have "es = butlast es @ [last es]" by simp
    with ok have "list_all entry_ok (butlast es @ [last es])" by simp
    then have "list_all entry_ok (butlast es)" "entry_ok (last es)" by simp_all
    with assms(2) have "list_all entry_ok (butlast es @ [(last es)\<lparr>stackTrace := Some v\<rparr>])"
      by (simp add: entry_ok_def)
    with assms(1) Some False show ?thesis
      by (auto simp: set_last_stackTrace_def store_ok_def entries_of_def)
  qed
qed

text \<open>
  When no send raises, the loop of \<^verbatim>\<open>routes.ts\<close> appends one record for every line that
  is not blank.
\<close>

lemma store_and_broadcast_stored:
  assumes "no_send_raises w" "InsertLogEntry.fileName ins = fid"
  shows "\<exists>w'. store_and_broadcast ev fid ins w = (w', None) \<and> no_send_raises w' \<and>
              stored w' fid = stored w fid @
                [(lineNumber ins, level ins, or_null (logger ins), message ins, or_null (stackTrace ins))]"
  using assms broadcast_no_raise[of "clients w" fid]
  by (auto simp: store_and_broadcast_def no_send_raises_def createLogEntry_def Let_def stored_def
      summary_def entries_of_def split: prod.splits)

lemma try_line_stored:
  assumes "no_send_raises w" "trim line \<noteq> []"
  shows "\<exists>w'. try_line ev fid line n w = (w', None) \<and> no_send_raises w' \<and>
              stored w' fid = stored w fid @ [parsed_summary (n, line)]"
proof -
  from parseLogLine_total[OF assms(2), of n] obtain e where
    e: "parseLogLine line n = Inr e" "stackTrace e = None" by blast
  from store_and_broadcast_stored[OF assms(1), of "with_fileName e fid" fid ev] e
  show ?thesis
    by (simp add: try_line_def parsed_summary_def with_fileName_def or_null_def)
qed

lemma upload_loop_stored:
  "no_send_raises w \<Longrightarrow>
   \<exists>w' k. upload_loop ev fid lines (w, n, errs) = ((w', k, errs), None) \<and> no_send_raises w' \<and>
          stored w' fid = stored w fid @ map parsed_summary (numbered n (filter (\<lambda>l. trim l \<noteq> []) lines))"
proof (induction lines arbitrary: w n)
  case Nil then show ?case by simp
next
  case (Cons l ls)
  show ?case
  proof (cases "trim l = []")
    case True
    with Cons.IH[OF Cons.prems, of n] show ?thesis by simp
  next
    case False
    from try_line_stored[OF Cons.prems False, of ev fid n] obtain w1 where
      w1: "try_line ev fid l n w = (w1, None)" "no_send_raises w1"
        "stored w1 fid = stored w fid @ [parsed_summary (n, l)]"
      by blast
    from Cons.IH[OF w1(2), of "Suc n"] w1 False show ?thesis by auto
  qed
qed

section \<open>C1: stack frames after a record\<close>

text \<open>
  C1 says that a line of stack frame syntax after a structural record is appended to the
  stack trace of that record, which is updated in place, so that a record followed by two
  frame lines ends as one stored record. The code does otherwise: \<^verbatim>\<open>parseLogLine\<close>
  trims the line before it tests the stack pattern, which demands leading white space, so
  no result ever carries a stack trace. The loop of \<^verbatim>\<open>routes.ts\<close> stores every
  result as a record of its own, and so does the loop of the merging handler, whatever
  \<^verbatim>\<open>updateLogEntry\<close> does. The theorem runs both loops on an empty store with no
  connection: on the three lines of the claim and on the same frames after a line of the
  registered format. It states that no parse result has a stack trace, and that the loop
  of \<^verbatim>\<open>routes.ts\<close>, when no send raises, appends one record for every line that is
  not blank, none with a stack trace.
\<close>

theorem frames_are_stored_as_separate_records:
  "stored (fst (fst (upload_loop ev fid
       [str ''2024-01-01 10:00:00.000 ERROR [svc] boom'',
        str ''  at foo.bar(Baz.java:10)'',
        str ''  at qux.quux(Quux.java:20)'']
       (new_world, 1, 0)))) fid =
     [(1, INFO, None, str ''2024-01-01 10:00:00.000 ERROR [svc] boom'', None),
      (2, INFO, None, str ''at foo.bar(Baz.java:10)'', None),
      (3, INFO, None, str ''at qux.quux(Quux.java:20)'', None)] \<and>
   stored (fst (upload_loop_merging updateLogEntry ev fid
       [str ''2024-01-01 10:00:00.000 ERROR [svc] boom'',
        str ''  at foo.bar(Baz.java:10)'',
        str ''  at qux.quux(Quux.java:20)'']
       (new_world, 1, 0, 0, None))) fid =
     [(1, INFO, None, str ''2024-01-01 10:00:00.000 ERROR [svc] boom'', None),
      (2, INFO, None, str ''at foo.bar(Baz.java:10)'', None),
      (3, INFO, None, str ''at qux.quux(Quux.java:20)'', None)] \<and>
   stored (fst (fst (upload_loop ev fid
       [str ''2024-01-01 10:00:00,000 main ERROR boom'',
        str ''  at foo.bar(Baz.java:10)'',
        str ''  at qux.quux(Quux.java:20)'']
       (new_world, 1, 0)))) fid =
     [(1, ERROR, Some (str ''main''), str ''boom'', None),
      (2, INFO, None, str ''at foo.bar(Baz.java:10)'', None),
      (3, INFO, None, str ''at qux.quux(Quux.java:20)'', None)] \<and>
   (case parseLogLine line n of Inl err \<Rightarrow> None | Inr e \<Rightarrow> stackTrace e) = None \<and>
   (no_send_raises w \<longrightarrow>
      (\<exists>w' k. upload_loop ev fid lines (w, k0, errs) = ((w', k, errs), None) \<and>
         stored w' fid =
           stored w fid @ map parsed_summary (numbered k0 (filter (\<lambda>l. trim l \<noteq> []) lines))))"
proof -
  have a: "stored (fst (fst (upload_loop ev fid
       [str ''2024-01-01 10:00:00.000 ERROR [svc] boom'',
        str ''  at foo.bar(Baz.java:10)'',
        str ''  at qux.quux(Quux.java:20)'']
       (new_world, 1, 0)))) fid =
     [(1, INFO, None, str ''2024-01-01 10:00:00.000 ERROR [svc] boom'', None),
      (2, INFO, None, str ''at foo.bar(Baz.java:10)'', None),
      (3, INFO, None, str ''at qux.quux(Quux.java:20)'', None)]"
    by (simp add: trim_examples str_nonempty ex_iso ex_frame ex_frame2 try_line_def
        store_and_broadcast_def createLogEntry_def with_fileName_def fallback_entry_def
        new_world_def new_MemStorage_def entries_of_def or_null_def stored_def summary_def Let_def)
  have b: "stored (fst (upload_loop_merging updateLogEntry ev fid
       [str ''2024-01-01 10:00:00.000 ERROR [svc] boom'',
        str ''  at foo.bar(Baz.java:10)'',
        str ''  at qux.quux(Quux.java:20)'']
       (new_world, 1, 0, 0, None))) fid =
     [(1, INFO, None, str ''2024-01-01 10:00:00.000 ERROR [svc] boom'', None),
      (2, INFO, None, str ''at foo.bar(Baz.java:10)'', None),
      (3, INFO, None, str ''at qux.quux(Quux.java:20)'', None)]"
    by (simp add: trim_examples str_nonempty ex_iso ex_frame ex_frame2 try_line_merging_def
        createLogEntry_def with_fileName_def fallback_entry_def new_world_def new_MemStorage_def
        entries_of_def or_null_def stored_def summary_def Let_def toISOString_def)
  have c: "stored (fst (fst (upload_loop ev fid
       [str ''2024-01-01 10:00:00,000 main ERROR boom'',
        str ''  at foo.bar(Baz.java:10)'',
        str ''  at qux.quux(Quux.java:20)'']
       (new_world, 1, 0)))) fid =
     [(1, ERROR, Some (str ''main''), str ''boom'', None),
      (2, INFO, None, str ''at foo.bar(Baz.java:10)'', None),
      (3, INFO, None, str ''at qux.quux(Quux.java:20)'', None)]"
    by (simp add: trim_examples str_nonempty ex_main ex_frame ex_frame2 try_line_def
        store_and_broadcast_def createLogEntry_def with_fileName_def fallback_entry_def
        new_world_def new_MemStorage_def entries_of_def or_null_def stored_def summary_def Let_def)
  have d: "(case parseLogLine line n of Inl err \<Rightarrow> None | Inr e \<Rightarrow> stackTrace e) = None"
  proof (cases "trim line = []")
    case True
    then show ?thesis by (simp add: parseLogLine_blank)
  next
    case False
    from parseLogLine_total[OF False, of n] show ?thesis by auto
  qed
  have e: "no_send_raises w \<longrightarrow>
      (\<exists>w' k. upload_loop ev fid lines (w, k0, errs) = ((w', k, errs), None) \<and>
         stored w' fid =
           stored w fid @ map parsed_summary (numbered k0 (filter (\<lambda>l. trim l \<noteq> []) lines)))"
    using upload_loop_stored[of w ev fid lines k0 errs] by blast
  from a b c d e show ?thesis by (intro conjI)
qed

text \<open>
  The theorem of C1 at a concrete environment and file id, for a store that is empty and
  has no connection; the third of the four lines is blank.
\<close>

theorem frames_are_stored_as_separate_records_witness:
  "no_send_raises new_world \<and>
   (\<exists>w' k. upload_loop (example_env (Inr []) (Inr []) None) (str ''f1'')
       [str ''2024-01-01 10:00:00,000 main ERROR boom'',
        str ''  at foo.bar(Baz.java:10)'',
        str ''   '',
        str ''  at qux.quux(Quux.java:20)'']
       (new_world, 1, 0) = ((w', k, 0), None) \<and>
     stored w' (str ''f1'') =
       [(1, ERROR, Some (str ''main''), str ''boom'', None),
        (2, INFO, None, str ''at foo.bar(Baz.java:10)'', None),
        (3, INFO, None, str ''at qux.quux(Quux.java:20)'', None)])"
proof -
  let ?lines = "[str ''2024-01-01 10:00:00,000 main ERROR boom'', str ''  at foo.bar(Baz.java:10)'',
                 str ''   '', str ''  at qux.quux(Quux.java:20)'']"
  have h: "no_send_raises new_world" by (simp add: no_send_raises_def new_world_def)
  have s: "stored new_world (str ''f1'') = []"
    by (simp add: stored_def entries_of_def new_world_def new_MemStorage_def)
  have t: "trim (str ''   '') = []" by (simp add: trim_def str_def is_space_def)
  have m: "str ''main'' \<noteq> []" by (simp add: str_def)
  have f: "filter (\<lambda>l. trim l \<noteq> []) ?lines =
     [str ''2024-01-01 10:00:00,000 main ERROR boom'', str ''  at foo.bar(Baz.java:10)'',
      str ''  at qux.quux(Quux.java:20)'']"
    by (simp add: trim_examples str_nonempty t)
  have p: "map parsed_summary (numbered 1
       [str ''2024-01-01 10:00:00,000 main ERROR boom'', str ''  at foo.bar(Baz.java:10)'',
        str ''  at qux.quux(Quux.java:20)'']) =
     [(1, ERROR, Some (str ''main''), str ''boom'', None),
      (2, INFO, None, str ''at foo.bar(Baz.java:10)'', None),
      (3, INFO, None, str ''at qux.quux(Quux.java:20)'', None)]"
    by (simp add: parsed_summary_def ex_main ex_frame ex_frame2 fallback_entry_def or_null_def m)
  note e = frames_are_stored_as_separate_records
    [of "example_env (Inr []) (Inr []) None" "str ''f1''" "\<lambda>e st. Inl TypeError" "[]" 1 new_world
        ?lines 1 0,
     THEN conjunct2, THEN conjunct2, THEN conjunct2, THEN conjunct2]
  from e h obtain w' k where
    r: "upload_loop (example_env (Inr []) (Inr []) None) (str ''f1'') ?lines (new_world, 1, 0) =
          ((w', k, 0), None)"
       "stored w' (str ''f1'') = stored new_world (str ''f1'') @
          map parsed_summary (numbered 1 (filter (\<lambda>l. trim l \<noteq> []) ?lines))"
    by blast
  from r(2) have "stored w' (str ''f1'') =
       [(1, ERROR, Some (str ''main''), str ''boom'', None),
        (2, INFO, None, str ''at foo.bar(Baz.java:10)'', None),
        (3, INFO, None, str ''at qux.quux(Quux.java:20)'', None)]"
    unfolding f p s by simp
  with r(1) h show ?thesis by blast
qed

section \<open>C2: one outcome for every line that is not blank\<close>

text \<open>
  C2: for every input line that is not blank, \<^verbatim>\<open>parseLogLine\<close> returns normally with
  exactly one outcome: a structural record, a continuation (stack trace) result or a
  fallback record; never none, never more than one, and it raises nothing.
\<close>

theorem parseLogLine_exactly_one_outcome:
  assumes "trim line \<noteq> []"
  shows "\<exists>e. parseLogLine line n = Inr e \<and> lineNumber e = n \<and>
     ((is_structural e \<and> \<not> is_continuation e \<and> \<not> is_fallback e) \<or>
      (\<not> is_structural e \<and> is_continuation e \<and> \<not> is_fallback e) \<or>
      (\<not> is_structural e \<and> \<not> is_continuation e \<and> is_fallback e))"
proof -
  from parseLogLine_total[OF assms, of n] obtain e where e: "parseLogLine line n = Inr e"
    "lineNumber e = n" "stackTrace e = None" "logger e \<noteq> None \<or> e = fallback_entry (trim line) n"
    by blast
  from e(3,4) have "(is_structural e \<and> \<not> is_continuation e \<and> \<not> is_fallback e) \<or>
      (\<not> is_structural e \<and> \<not> is_continuation e \<and> is_fallback e)"
    by (auto simp: is_structural_def is_continuation_def is_fallback_def fallback_entry_def)
  with e(1,2) show ?thesis by blast
qed

text \<open>The theorem of C2 at the line \<^verbatim>\<open>some random text\<close>, which is not blank.\<close>

theorem parseLogLine_exactly_one_outcome_witness:
  "trim (str ''some random text'') \<noteq> [] \<and>
   (\<exists>e. parseLogLine (str ''some random text'') 7 = Inr e \<and> lineNumber e = 7 \<and>
     ((is_structural e \<and> \<not> is_continuation e \<and> \<not> is_fallback e) \<or>
      (\<not> is_structural e \<and> is_continuation e \<and> \<not> is_fallback e) \<or>
      (\<not> is_structural e \<and> \<not> is_continuation e \<and> is_fallback e)))"
proof -
  have h: "trim (str ''some random text'') \<noteq> []"
    by (simp add: trim_def str_def is_space_def)
  from h parseLogLine_exactly_one_outcome[OF h, of 7] show ?thesis by (rule conjI)
qed

section \<open>C3: the registered patterns\<close>

text \<open>
  C3 as stated fails: it says that the registered patterns cover a form with a bare time
  and no date, and that some line of that form yields a structural record. No pattern of
  \<^verbatim>\<open>TOMCAT_PATTERNS\<close> starts with a time: no line that starts with two digits and a
  colon yields a structural record, and the line \<^verbatim>\<open>10:00:00.000 ERROR boom\<close> yields
  the fallback record. So do the ISO-like lines with a bracketed logger or with no word
  \<^verbatim>\<open>main\<close> before the level, and the locale line with no logger.
\<close>

theorem no_bare_time_pattern:
  "\<not> (\<exists>line n e. bare_time (trim line) \<and> parseLogLine line n = Inr e \<and> is_structural e) \<and>
   parseLogLine (str ''10:00:00.000 ERROR boom'') 1 =
     Inr (fallback_entry (str ''10:00:00.000 ERROR boom'') 1) \<and>
   parseLogLine (str ''2024-01-01 10:00:00.000 ERROR [svc] boom'') 1 =
     Inr (fallback_entry (str ''2024-01-01 10:00:00.000 ERROR [svc] boom'') 1) \<and>
   parseLogLine (str ''2024-01-01 10:00:00,000 ERROR boom'') 1 =
     Inr (fallback_entry (str ''2024-01-01 10:00:00,000 ERROR boom'') 1) \<and>
   parseLogLine (str ''01.02.24 10:00:00:000 - WARN - disk low'') 1 =
     Inr (fallback_entry (str ''01.02.24 10:00:00:000 - WARN - disk low'') 1)"
proof -
  have "\<not> is_structural e" if "bare_time (trim line)" "parseLogLine line n = Inr e" for line n e
    using bare_time_fallback[OF that(1), of n] that(2)
    by (auto simp: is_structural_def fallback_entry_def)
  then have a: "\<not> (\<exists>line n e. bare_time (trim line) \<and> parseLogLine line n = Inr e \<and> is_structural e)"
    by blast
  have b: "parseLogLine (str ''10:00:00.000 ERROR boom'') 1 =
     Inr (fallback_entry (str ''10:00:00.000 ERROR boom'') 1)"
    by (simp add: parse_defs fallback_entry_def)
  have c: "parseLogLine (str ''2024-01-01 10:00:00,000 ERROR boom'') 1 =
     Inr (fallback_entry (str ''2024-01-01 10:00:00,000 ERROR boom'') 1)"
    by (simp add: parse_defs fallback_entry_def)
  have d: "parseLogLine (str ''01.02.24 10:00:00:000 - WARN - disk low'') 1 =
     Inr (fallback_entry (str ''01.02.24 10:00:00:000 - WARN - disk low'') 1)"
    by (simp add: parse_defs fallback_entry_def)
  from a b ex_iso[of 1] c d show ?thesis by (intro conjI)
qed

text \<open>
  C3 as amended: the registered structural patterns are (a) the form
  \<^verbatim>\<open>YYYY-MM-DD HH:mm:ss,SSS main LEVEL message\<close>, with a comma before the milliseconds
  and the word \<^verbatim>\<open>main\<close> before the level, whose logger is \<^verbatim>\<open>main\<close>, and (b) the
  locale form \<^verbatim>\<open>DD.MM.YY HH:mm:ss:SSS - LEVEL - logger - message\<close>, whose two-digit
  year is read as 20YY; a line of each yields a structural record with the extracted
  fields. There is no bare-time pattern: a line that starts with a time and no date
  yields the INFO fallback record with the trimmed line as its message.
\<close>

theorem structural_patterns_main_and_locale:
  "parseLogLine (str ''2024-01-01 10:00:00,000 main ERROR boom'') n =
     Inr \<lparr>lineNumber = n, timestamp = TDate (DateOf (str ''2024-01-01 10:00:00.000'')),
          level = ERROR, logger = Some (str ''main''), message = str ''boom'', stackTrace = None\<rparr> \<and>
   parseLogLine (str ''15.03.24 08:30:00:123 - ERROR - app.Main - failed'') n =
     Inr \<lparr>lineNumber = n, timestamp = TDate (DateOf (str ''2024-03-15 08:30:00:123'')),
          level = ERROR, logger = Some (str ''app.Main''), message = str ''failed'', stackTrace = None\<rparr> \<and>
   (bare_time (trim line) \<longrightarrow> parseLogLine line n = Inr (fallback_entry (trim line) n))"
proof -
  have b: "parseLogLine (str ''15.03.24 08:30:00:123 - ERROR - app.Main - failed'') n =
     Inr \<lparr>lineNumber = n, timestamp = TDate (DateOf (str ''2024-03-15 08:30:00:123'')),
          level = ERROR, logger = Some (str ''app.Main''), message = str ''failed'', stackTrace = None\<rparr>"
    by (simp add: parse_defs)
  from ex_main[of n] b bare_time_fallback[of line n] show ?thesis by blast
qed

text \<open>The theorem of C3 at a line with a bare time.\<close>

theorem structural_patterns_main_and_locale_witness:
  "bare_time (trim (str ''  10:15:30.250 WARN disk low'')) \<and>
   parseLogLine (str ''  10:15:30.250 WARN disk low'') 3 =
     Inr (fallback_entry (trim (str ''  10:15:30.250 WARN disk low'')) 3)"
proof -
  have h: "bare_time (trim (str ''  10:15:30.250 WARN disk low''))"
    by (simp add: bare_time_def trim_def str_def is_space_def is_digit_def)
  from h structural_patterns_main_and_locale[of 3 "str ''  10:15:30.250 WARN disk low''"]
  show ?thesis by blast
qed

section \<open>C4: a line of the locale format\<close>

text \<open>
  C4: parsing \<^verbatim>\<open>01.02.24 10:00:00:000 - WARN - svcA - disk low\<close> produces a
  structural record with level WARN, logger \<^verbatim>\<open>svcA\<close>, message \<^verbatim>\<open>disk low\<close> and
  a timestamp whose year is 2024: the Date is made from the string
  \<^verbatim>\<open>2024-02-01 10:00:00:000\<close>, the two-digit year after \<^verbatim>\<open>20\<close>.
\<close>

theorem parseLogLine_locale_example:
  "parseLogLine (str ''01.02.24 10:00:00:000 - WARN - svcA - disk low'') n =
     Inr \<lparr>lineNumber = n, timestamp = TDate (DateOf (str ''2024-02-01 10:00:00:000'')),
          level = WARN, logger = Some (str ''svcA''), message = str ''disk low'',
          stackTrace = None\<rparr> \<and>
   timestampStr (str ''01.02.24 10:00:00:000'') = str ''20'' @ str ''24'' @ str ''-02-01 10:00:00:000''"
  by (simp add: parse_defs)

text \<open>The theorem of C4 for line number 1; the record is structural.\<close>

theorem parseLogLine_locale_example_witness:
  "\<exists>e. parseLogLine (str ''01.02.24 10:00:00:000 - WARN - svcA - disk low'') 1 = Inr e \<and>
       is_structural e \<and> level e = WARN \<and> logger e = Some (str ''svcA'') \<and>
       message e = str ''disk low'' \<and>
       timestamp e = TDate (DateOf (str ''2024-02-01 10:00:00:000''))"
  using parseLogLine_locale_example[of 1] by (simp add: is_structural_def)

section \<open>C5: reading pages\<close>

text \<open>
  C5: for every file and all natural numbers N and M, the read of N entries from 0
  followed by the read of M entries from N is the read of N + M entries from 0; a read
  returns the slice from offset to offset + limit of the stored sequence in insertion
  order, and an offset past the end yields the empty result and no error. The
  JavaScript store returns the same slice with every timestamp made a string, which
  raises on an invalid Date; its reads concatenate in the same way, a raise in a part
  being a raise in the whole.
\<close>

theorem getLogEntries_pages_concatenate:
  "getLogEntries st f (int N) 0 @ getLogEntries st f (int M) (int N) =
     getLogEntries st f (int N + int M) 0 \<and>
   getLogEntries st f (int limit) (int offset) = take limit (drop offset (entries_of st f)) \<and>
   (length (entries_of st f) \<le> offset \<longrightarrow>
      getLogEntries st f (int limit) (int offset) = [] \<and>
      getLogEntries_js valid st f (int limit) (int offset) = Inr []) \<and>
   getLogEntries_js valid st f (int limit) (int offset) =
     map_raise (entry_json valid) (take limit (drop offset (entries_of st f))) \<and>
   getLogEntries_js valid st f (int N + int M) 0 =
     (case getLogEntries_js valid st f (int N) 0 of
        Inl err \<Rightarrow> Inl err
      | Inr a \<Rightarrow>
          (case getLogEntries_js valid st f (int M) (int N) of
             Inl err \<Rightarrow> Inl err
           | Inr b \<Rightarrow> Inr (a @ b)))"
proof -
  have z: "(0::int) = int 0" and s: "int N + int M = int (N + M)" by simp_all
  have a: "getLogEntries st f (int N) 0 @ getLogEntries st f (int M) (int N) =
     getLogEntries st f (int N + int M) 0"
    unfolding z s getLogEntries_take_drop by (simp add: take_add)
  have b: "getLogEntries_js valid st f (int N + int M) 0 =
     (case getLogEntries_js valid st f (int N) 0 of
        Inl err \<Rightarrow> Inl err
      | Inr a \<Rightarrow>
          (case getLogEntries_js valid st f (int M) (int N) of
             Inl err \<Rightarrow> Inl err
           | Inr b \<Rightarrow> Inr (a @ b)))"
    unfolding z s getLogEntries_js_take_drop by (simp add: take_add map_raise_append)
  have c: "length (entries_of st f) \<le> offset \<longrightarrow>
      getLogEntries st f (int limit) (int offset) = [] \<and>
      getLogEntries_js valid st f (int limit) (int offset) = Inr []"
    by (simp add: getLogEntries_take_drop getLogEntries_js_take_drop)
  from a b c getLogEntries_take_drop[of st f limit offset]
    getLogEntries_js_take_drop[of valid st f limit offset]
  show ?thesis by (intro conjI)
qed

text \<open>
  The theorem of C5 on a store that holds four entries of a file: pages of one and of two
  entries, and an offset past the end.
\<close>

theorem getLogEntries_pages_concatenate_witness:
  "getLogEntries example_store (str ''f1'') 1 0 @ getLogEntries example_store (str ''f1'') 2 1 =
     [example_entry 1 ERROR, example_entry 2 WARN, example_entry 3 WARN] \<and>
   length (entries_of example_store (str ''f1'')) \<le> 5 \<and>
   getLogEntries example_store (str ''f1'') 2 5 = []"
proof -
  have h: "length (entries_of example_store (str ''f1'')) \<le> 5"
    by (simp add: entries_of_def example_store_def)
  have e: "take 3 (drop 0 (entries_of example_store (str ''f1''))) =
     [example_entry 1 ERROR, example_entry 2 WARN, example_entry 3 WARN]"
    by (simp add: entries_of_def example_store_def)
  from getLogEntries_pages_concatenate[of example_store "str ''f1''" 1 2 3 0 "\<lambda>s. True"] e
  have a: "getLogEntries example_store (str ''f1'') 1 0 @ getLogEntries example_store (str ''f1'') 2 1 =
     [example_entry 1 ERROR, example_entry 2 WARN, example_entry 3 WARN]"
    by simp
  from getLogEntries_pages_concatenate[of example_store "str ''f1''" 1 2 2 5 "\<lambda>s. True"] h
  have b: "getLogEntries example_store (str ''f1'') 2 5 = []" by simp
  from a h b show ?thesis by (intro conjI)
qed

section \<open>C6: the status of an uploaded file\<close>

text \<open>
  C6 as stated fails: it says that a fault of the file system outside the loop over the
  lines fails the upload and leaves the file in the status processing. The handler marks
  the file active before it deletes the temporary file: when \<^verbatim>\<open>unlinkSync\<close> raises,
  the upload is answered with 500 and the file is active.
\<close>

theorem upload_fails_after_active:
  "case upload (example_env (Inr []) (Inr (str ''hello'')) (Some IOError)) (Some example_file) new_world of
     (w', r) \<Rightarrow> r = FailedToProcess \<and> status_of w' [48] = Some (str ''active'')"
proof -
  have n: "no_send_raises new_world" by (simp add: no_send_raises_def new_world_def)
  from upload_completes
    [of "example_env (Inr []) (Inr (str ''hello'')) (Some IOError)" example_file "[]" "str ''hello''" new_world,
     OF _ _ n]
  show ?thesis by (auto simp: example_env_def or_null_def new_world_def)
qed

text \<open>
  C6 as amended: when reading or decoding the uploaded file raises, before the loop over
  the lines, the upload fails as a whole and the status of the file remains processing.
  When both succeed and no send to a connection raises, the file is marked active after
  all lines are consumed, whatever the lines are and however many of them fell into the
  fallback; the upload is answered with the counts, unless deleting the temporary file
  raises: then it is answered with 500, the file being active.
\<close>

theorem upload_status_by_fault:
  "(readFileSync ev (path f) = Inl err \<longrightarrow>
      (\<exists>w'. upload ev (Some f) w = (w', FailedToProcess) \<and>
            status_of w' (randomUUID ev (uuids w)) = Some (str ''processing''))) \<and>
   (readFileSync ev (path f) = Inr buf \<and>
    decode ev buf (pick_codec (case or_null (detect ev buf) of None \<Rightarrow> str ''utf-8'' | Some e \<Rightarrow> e)) = Inl err \<longrightarrow>
      (\<exists>w'. upload ev (Some f) w = (w', FailedToProcess) \<and>
            status_of w' (randomUUID ev (uuids w)) = Some (str ''processing''))) \<and>
   (readFileSync ev (path f) = Inr buf \<and>
    decode ev buf (pick_codec (case or_null (detect ev buf) of None \<Rightarrow> str ''utf-8'' | Some e \<Rightarrow> e)) = Inr content \<and>
    no_send_raises w \<longrightarrow>
      (\<exists>w'. upload ev (Some f) w =
              (w', if unlinkSync ev (path f) = None
                   then Processed (randomUUID ev (uuids w)) (originalname f)
                          (length (filter (\<lambda>l. trim l \<noteq> []) (split_lines content))) 0
                   else FailedToProcess) \<and>
            status_of w' (randomUUID ev (uuids w)) = Some (str ''active'')))"
  using upload_read_fails[of ev f err w] upload_decode_fails[of ev f buf err w]
    upload_completes[of ev f buf content w]
  by blast

text \<open>
  The theorem of C6 at three environments: reading raises; decoding raises; neither
  raises, for a file of one line that no pattern matches.
\<close>

theorem upload_status_by_fault_witness:
  "(\<exists>w'. upload (example_env (Inl IOError) (Inr []) None) (Some example_file) new_world =
           (w', FailedToProcess) \<and> status_of w' [48] = Some (str ''processing'')) \<and>
   (\<exists>w'. upload (example_env (Inr []) (Inl IOError) None) (Some example_file) new_world =
           (w', FailedToProcess) \<and> status_of w' [48] = Some (str ''processing'')) \<and>
   (\<exists>w'. upload (example_env (Inr []) (Inr (str ''hello'')) None) (Some example_file) new_world =
           (w', Processed [48] (str ''a.log'') 1 0) \<and> status_of w' [48] = Some (str ''active''))"
proof -
  have n: "no_send_raises new_world" by (simp add: no_send_raises_def new_world_def)
  have l: "length (filter (\<lambda>l. trim l \<noteq> []) (split_lines (str ''hello''))) = 1"
    by (simp add: str_def trim_def is_space_def)
  from upload_status_by_fault
    [of "example_env (Inl IOError) (Inr []) None" example_file IOError new_world "[]" "[]"]
  have a: "\<exists>w'. upload (example_env (Inl IOError) (Inr []) None) (Some example_file) new_world =
           (w', FailedToProcess) \<and> status_of w' [48] = Some (str ''processing'')"
    by (simp add: example_env_def new_world_def)
  from upload_status_by_fault
    [of "example_env (Inr []) (Inl IOError) None" example_file IOError new_world "[]" "[]"]
  have b: "\<exists>w'. upload (example_env (Inr []) (Inl IOError) None) (Some example_file) new_world =
           (w', FailedToProcess) \<and> status_of w' [48] = Some (str ''processing'')"
    by (simp add: example_env_def new_world_def)
  from upload_status_by_fault
    [of "example_env (Inr []) (Inr (str ''hello'')) None" example_file IOError new_world "[]" "str ''hello''"]
    n l
  have c: "\<exists>w'. upload (example_env (Inr []) (Inr (str ''hello'')) None) (Some example_file) new_world =
           (w', Processed [48] (str ''a.log'') 1 0) \<and> status_of w' [48] = Some (str ''active'')"
    by (simp add: example_env_def new_world_def example_file_def)
  from a b c show ?thesis by (intro conjI)
qed

section \<open>C7: clearing a file\<close>

text \<open>
  C7: \<^verbatim>\<open>clearLogEntries\<close> makes the sequence of the file empty and leaves the files
  of the store (status and name among their fields) as they are, so that the statistics
  of the file are total 0, errors 0 and warnings 0 right after it.
\<close>

theorem clearLogEntries_keeps_file_zeroes_statistics:
  "logFiles (clearLogEntries st f) = logFiles st \<and>
   (\<forall>i. getLogFile (clearLogEntries st f) i = getLogFile st i) \<and>
   entries_of (clearLogEntries st f) f = [] \<and>
   getLogStatistics (clearLogEntries st f) f = \<lparr>total = 0, errors = 0, warnings = 0\<rparr>"
  by (simp add: clearLogEntries_def getLogFile_def getLogStatistics_def entries_of_def)

text \<open>
  The theorem of C7 on a store whose file holds an ERROR, two WARN and an INFO entry:
  the statistics are 4, 1 and 2 before and all zero after, and the file is still there.
\<close>

theorem clearLogEntries_keeps_file_zeroes_statistics_witness:
  "getLogStatistics example_store (str ''f1'') = \<lparr>total = 4, errors = 1, warnings = 2\<rparr> \<and>
   getLogStatistics (clearLogEntries example_store (str ''f1'')) (str ''f1'') =
     \<lparr>total = 0, errors = 0, warnings = 0\<rparr> \<and>
   getLogFile (clearLogEntries example_store (str ''f1'')) (str ''f1'') = Some example_file_record"
proof -
  have a: "getLogStatistics example_store (str ''f1'') = \<lparr>total = 4, errors = 1, warnings = 2\<rparr>"
    by (simp add: getLogStatistics_def entries_of_def example_store_def example_entry_def)
  have b: "getLogFile example_store (str ''f1'') = Some example_file_record"
    by (simp add: getLogFile_def example_store_def)
  from a b clearLogEntries_keeps_file_zeroes_statistics[of example_store "str ''f1''"]
  show ?thesis by simp
qed

section \<open>C8: broadcasting to the subscribers\<close>




section \<open>C9: the empty line error\<close>

text \<open>
  C9: \<^verbatim>\<open>parseLogLine\<close> raises the error \<^verbatim>\<open>Empty line\<close> exactly when its input trims
  to the empty string, and raises nothing else, so it never raises on a line that is not
  blank; both upload loops skip the blank lines before they call the parser: a run over
  the lines is the run over the lines that are not blank.
\<close>

theorem parseLogLine_raises_iff_blank:
  "(parseLogLine line n = Inl err) = (err = EmptyLine \<and> trim line = []) \<and>
   upload_loop ev fid lines s = upload_loop ev fid (filter (\<lambda>l. trim l \<noteq> []) lines) s \<and>
   upload_loop_merging updateLogEntry ev fid lines s' =
     upload_loop_merging updateLogEntry ev fid (filter (\<lambda>l. trim l \<noteq> []) lines) s'"
proof -
  have "(parseLogLine line n = Inl err) = (err = EmptyLine \<and> trim line = [])"
  proof (cases "trim line = []")
    case True
    then show ?thesis using parseLogLine_blank[of line n] by auto
  next
    case False
    from parseLogLine_total[OF False, of n] False show ?thesis by auto
  qed
  with upload_loop_skips_blank[of ev fid lines s]
    upload_loop_merging_skips_blank[of updateLogEntry ev fid lines s']
  show ?thesis by (intro conjI)
qed

text \<open>The theorem of C9 at a line of white space and at a line that is not blank.\<close>

theorem parseLogLine_raises_iff_blank_witness:
  "parseLogLine (str '' '' @ [9, 13]) 1 = Inl EmptyLine \<and>
   parseLogLine (str ''some random text'') 1 \<noteq> Inl EmptyLine"
proof -
  have a: "trim (str '' '' @ [9, 13]) = []" by (simp add: trim_def str_def is_space_def)
  have b: "trim (str ''some random text'') \<noteq> []" by (simp add: trim_def str_def is_space_def)
  from a b parseLogLine_raises_iff_blank[of "str '' '' @ [9, 13]" 1 EmptyLine]
    parseLogLine_raises_iff_blank[of "str ''some random text''" 1 EmptyLine]
  show ?thesis by simp
qed

section \<open>C10: what \<^verbatim>\<open>createLogEntry\<close> stores\<close>

text \<open>
  C10: every record that \<^verbatim>\<open>createLogEntry\<close> stores gets the generated UUID as its id,
  whatever id the caller supplied with the entry, and its logger and stack trace are
  null when the supplied value is absent or the empty string; so no stored record has an
  empty logger or stack trace: the new store has none, and \<^verbatim>\<open>createLogEntry\<close>, the
  other operations of the store and the assignment of the merging loop keep it so.
\<close>

theorem createLogEntry_id_and_nulls:
  "(case createLogEntry uuid ins st of
      (e, st') \<Rightarrow>
        LogEntry.id' e = uuid \<and>
        logger e = or_null (logger ins) \<and> stackTrace e = or_null (stackTrace ins) \<and>
        logger e \<noteq> Some [] \<and> stackTrace e \<noteq> Some [] \<and>
        entries_of st' (InsertLogEntry.fileName ins) = entries_of st (InsertLogEntry.fileName ins) @ [e] \<and>
        (store_ok st \<longrightarrow> store_ok st')) \<and>
   or_null None = None \<and> or_null (Some []) = None \<and>
   store_ok new_MemStorage \<and>
   (store_ok st \<longrightarrow> store_ok (clearLogEntries st f) \<and> store_ok (deleteLogFile st f) \<and>
      store_ok (updateLogFileStatus st f s) \<and>
      (v \<noteq> [] \<longrightarrow> store_ok (set_last_stackTrace f v st)))"
  using createLogEntry_facts[of uuid ins st] store_ok_others(1) store_ok_others(2)[of st f]
    store_ok_others(3)[of st f] store_ok_others(4)[of st f s] store_ok_set_last_stackTrace[of st v f]
  by (auto simp: entry_ok_def or_null_def)

text \<open>
  The theorem of C10 for an entry that comes with an id of its own, the empty string as
  its logger and no stack trace, stored into the new store.
\<close>

theorem createLogEntry_id_and_nulls_witness:
  "store_ok new_MemStorage \<and>
   (case createLogEntry (str ''u1'')
           ((example_entry 1 INFO)\<lparr>logger := Some [], LogEntry.id' := str ''mine''\<rparr>) new_MemStorage of
      (e, st') \<Rightarrow> LogEntry.id' e = str ''u1'' \<and> logger e = None \<and> stackTrace e = None \<and> store_ok st')"
proof -
  have h: "store_ok new_MemStorage" by (simp add: store_ok_def new_MemStorage_def entries_of_def)
  from h createLogEntry_id_and_nulls[of "str ''u1''"
      "(example_entry 1 INFO)\<lparr>logger := Some [], LogEntry.id' := str ''mine''\<rparr>" new_MemStorage]
  show ?thesis by (auto simp: example_entry_def or_null_def split: prod.splits)
qed

end
